theory Spec2Isabelle
  imports Main
begin

section \<open>Python strings\<close>

text \<open>
  The program is Python 2 driving \<^verbatim>\<open>arcpy\<close>. Strings are \<^typ>\<open>string\<close>; the three string
  methods the program uses are written out.
\<close>

definition startswith :: "string \<Rightarrow> string \<Rightarrow> bool" where
  "startswith s p = (take (length p) s = p)"

definition endswith :: "string \<Rightarrow> string \<Rightarrow> bool" where
  "endswith s p = (length p \<le> length s \<and> drop (length s - length p) s = p)"

text \<open>
  \<^verbatim>\<open>strip()\<close> without argument removes leading and trailing whitespace: the blank, the
  characters \<^verbatim>\<open>\t \n \x0b \x0c \r\<close>, and, on the text values \<^verbatim>\<open>arcpy\<close> returns, the separators
  \<^verbatim>\<open>\x1c\<close> to \<^verbatim>\<open>\x1f\<close>.
\<close>

definition isspace :: "char \<Rightarrow> bool" where
  "isspace c = (c \<in> set [CHR '' '', CHR 0x09, CHR 0x0A, CHR 0x0B, CHR 0x0C, CHR 0x0D,
                           CHR 0x1C, CHR 0x1D, CHR 0x1E, CHR 0x1F])"

definition strip :: "string \<Rightarrow> string" where
  "strip s = rev (dropWhile isspace (rev (dropWhile isspace s)))"

text \<open>A value between single quotes, as the format strings of the messages have it.\<close>

definition quoted :: "string \<Rightarrow> string" where
  "quoted x = CHR 0x27 # x @ [CHR 0x27]"

text \<open>\<^verbatim>\<open>str(n)\<close> on integers, as used by the log messages.\<close>

definition digit_char :: "nat \<Rightarrow> char" where
  "digit_char d = (case d of 0 \<Rightarrow> CHR ''0'' | Suc 0 \<Rightarrow> CHR ''1'' | Suc (Suc 0) \<Rightarrow> CHR ''2''
     | Suc (Suc (Suc 0)) \<Rightarrow> CHR ''3'' | Suc (Suc (Suc (Suc 0))) \<Rightarrow> CHR ''4''
     | Suc (Suc (Suc (Suc (Suc 0)))) \<Rightarrow> CHR ''5''
     | Suc (Suc (Suc (Suc (Suc (Suc 0))))) \<Rightarrow> CHR ''6''
     | Suc (Suc (Suc (Suc (Suc (Suc (Suc 0)))))) \<Rightarrow> CHR ''7''
     | Suc (Suc (Suc (Suc (Suc (Suc (Suc (Suc 0))))))) \<Rightarrow> CHR ''8''
     | _ \<Rightarrow> CHR ''9'')"

function str_nat :: "nat \<Rightarrow> string" where
  "str_nat n = (if n < 10 then [digit_char n] else str_nat (n div 10) @ [digit_char (n mod 10)])"
  by pat_completeness auto
termination
  by (relation "measure id") auto

declare str_nat.simps [simp del]

definition str_int :: "int \<Rightarrow> string" where
  "str_int i = (if i < 0 then CHR ''-'' # str_nat (nat (- i)) else str_nat (nat i))"

section \<open>The category descriptor\<close>

text \<open>
  \<^verbatim>\<open>ConcertoSection.__init__\<close>: five constructor arguments, and the artifact names derived
  from the prefix.
\<close>

record concerto_section =
  cpad_view_name :: string
  shape_key_field :: string
  cpad_key_field :: string
  shapefile_folder :: string
  feature_class_prefix :: string

definition shape_fc :: "concerto_section \<Rightarrow> string" where
  "shape_fc s = feature_class_prefix s @ ''_Shape''"

definition poly_fc :: "concerto_section \<Rightarrow> string" where
  "poly_fc s = feature_class_prefix s @ ''_Poly''"

definition cpad_fc :: "concerto_section \<Rightarrow> string" where
  "cpad_fc s = feature_class_prefix s @ ''_CPAD''"

definition live_fc :: "concerto_section \<Rightarrow> string" where
  "live_fc s = feature_class_prefix s @ ''_Live''"

text \<open>The first category of \<^verbatim>\<open>concerto_v4.py\<close>, used for the concrete runs below.\<close>

definition AcqDisp :: concerto_section where
  "AcqDisp = \<lparr>cpad_view_name = ''Concerto.dbo.V_GIS_ACQUISITION_DISPOSAL'',
     shape_key_field = ''REFVAL'', cpad_key_field = ''EstatesRef'',
     shapefile_folder = ''AcqDisp'', feature_class_prefix = ''Disposals''\<rparr>"

section \<open>The world the script acts on\<close>

text \<open>
  A row of an attribute table gives a value for each field name; all values are strings
  (the key fields \<^verbatim>\<open>REFVAL\<close> and \<^verbatim>\<open>UPRN\<close> are read with \<^verbatim>\<open>len\<close> and \<^verbatim>\<open>strip\<close>).
  A cursor opened on a list of field names yields, for each row, the tuple of the values of
  those fields.
\<close>

type_synonym row = "string \<Rightarrow> string"

record table =
  field_names :: "string list"
  rows :: "row list"

text \<open>
  A directory entry of the input folder: its last-modified time in seconds, and its attribute
  table when \<^verbatim>\<open>arcpy\<close> can read it as a shapefile (\<open>None\<close>: every \<^verbatim>\<open>arcpy\<close> read of it raises
  \<^verbatim>\<open>RuntimeError\<close>). The entry \<^verbatim>\<open>X.shp\<close> stands for the shapefile with its companion files
  (\<^verbatim>\<open>X.dbf\<close>, \<^verbatim>\<open>X.shx\<close>, ...), which \<^verbatim>\<open>arcpy\<close> reads and deletes as one dataset; a lock file
  is an entry of its own.
\<close>

record shapefile =
  mtime :: int
  content :: "table option"

datatype exn =
    NameError string
  | TypeError string
  | ValueError string
  | RuntimeError string
  | ExecuteError string
  | IOError string
  | OSError string
  | IndexError string
  | AssertionError

fun str_exn :: "exn \<Rightarrow> string" where
  "str_exn (NameError m) = m"
| "str_exn (TypeError m) = m"
| "str_exn (ValueError m) = m"
| "str_exn (RuntimeError m) = m"
| "str_exn (ExecuteError m) = m"
| "str_exn (IOError m) = m"
| "str_exn (OSError m) = m"
| "str_exn (IndexError m) = m"
| "str_exn AssertionError = []"

text \<open>
  \<^item> \<open>gdb\<close>: the feature classes of the geodatabase \<^verbatim>\<open>MAIN_PATH\<close> (the \<^verbatim>\<open>arcpy\<close> workspace), by name;
  \<^item> \<open>shape_dir\<close>: the category's input folder \<^verbatim>\<open>self.shape_input\<close>, in \<^verbatim>\<open>os.listdir\<close> order;
  \<^item> \<open>delete_error\<close>: the input files \<^verbatim>\<open>arcpy.Delete_management\<close> fails on, with the message;
  \<^item> \<open>row_delete_error\<close>: the rows of a feature class \<^verbatim>\<open>deleteRow\<close> fails on;
  \<^item> \<open>append_error\<close>: whether \<^verbatim>\<open>arcpy.Append_management\<close> fails;
  \<^item> \<open>clock\<close>: \<^verbatim>\<open>time.time()\<close> in whole seconds; \<open>utc_offset\<close>: the local time zone, as the
    seconds east of UTC in force at each timestamp (it changes with daylight saving);
  \<^item> \<open>log_lines\<close>: the messages written to \<^verbatim>\<open>LOG_FILE\<close>, oldest first (each line of the file is
    the message after \<^verbatim>\<open>time.asctime()\<close> and \<^verbatim>\<open>" - "\<close>).
\<close>

record world =
  gdb :: "string \<Rightarrow> table option"
  shape_dir :: "(string \<times> shapefile) list"
  delete_error :: "string \<Rightarrow> string option"
  row_delete_error :: "string \<Rightarrow> row \<Rightarrow> string option"
  append_error :: "string option"
  clock :: int
  utc_offset :: "int \<Rightarrow> int"
  log_lines :: "string list"

definition message :: "string \<Rightarrow> world \<Rightarrow> world" where
  "message msg w = w\<lparr>log_lines := log_lines w @ [msg]\<rparr>"

definition listdir :: "world \<Rightarrow> string list" where
  "listdir w = map fst (shape_dir w)"

section \<open>Discovery\<close>

text \<open>
  \<^verbatim>\<open>has_lock_file\<close>: \<^verbatim>\<open>shapefile[:-4]\<close> drops the last four characters; the file counts as locked
  when some directory entry starts with that and ends with \<^verbatim>\<open>lock\<close>. The method returns
  \<^verbatim>\<open>True\<close> after logging, and \<^verbatim>\<open>None\<close> (false) otherwise.
\<close>

definition lock_check_list :: "string \<Rightarrow> world \<Rightarrow> string list" where
  "lock_check_list shapefile w =
     (let shapename = take (length shapefile - 4) shapefile
      in filter (\<lambda>name. startswith name shapename \<and> endswith name ''lock'') (listdir w))"

definition has_lock_file :: "string \<Rightarrow> world \<Rightarrow> bool \<times> world" where
  "has_lock_file shapefile w =
     (let shapename = take (length shapefile - 4) shapefile
      in if lock_check_list shapefile w \<noteq> []
         then (True, message (shapename @ '' is locked. Skipping verification'') w)
         else (False, w))"

text \<open>
  \<^verbatim>\<open>create_list_of_shapes_to_verify\<close>: the comprehension over \<^verbatim>\<open>os.listdir\<close>; \<^verbatim>\<open>and\<close> is
  short-circuit, so \<^verbatim>\<open>has_lock_file\<close> runs (and logs) only for names that pass the first two tests.
\<close>

fun shapes_to_verify :: "string list \<Rightarrow> world \<Rightarrow> string list \<times> world" where
  "shapes_to_verify [] w = ([], w)"
| "shapes_to_verify (item # items) w =
     (if endswith item ''.shp'' \<and> \<not> startswith item ''__''
      then (case has_lock_file item w of
              (True, w') \<Rightarrow> shapes_to_verify items w'
            | (False, w') \<Rightarrow> (case shapes_to_verify items w' of (l, w'') \<Rightarrow> (item # l, w'')))
      else shapes_to_verify items w)"

definition create_list_of_shapes_to_verify :: "world \<Rightarrow> string list \<times> world" where
  "create_list_of_shapes_to_verify w = shapes_to_verify (listdir w) w"

section \<open>The Verifier\<close>

text \<open>Writing a file of the input folder back under its name.\<close>

fun update_entry :: "string \<Rightarrow> shapefile \<Rightarrow> (string \<times> shapefile) list \<Rightarrow> (string \<times> shapefile) list" where
  "update_entry item f [] = []"
| "update_entry item f ((n, g) # es) =
     (if n = item then (n, f) # es else (n, g) # update_entry item f es)"

definition write_file :: "string \<Rightarrow> shapefile \<Rightarrow> world \<Rightarrow> world" where
  "write_file item f w = w\<lparr>shape_dir := update_entry item f (shape_dir w)\<rparr>"

text \<open>
  \<^verbatim>\<open>arcpy.ListFields\<close> on an input file: the field names, or \<^verbatim>\<open>RuntimeError\<close> when the file
  cannot be read.
\<close>

definition ListFields_shape :: "string \<Rightarrow> world \<Rightarrow> exn + string list" where
  "ListFields_shape item w =
     (case map_of (shape_dir w) item of
        None \<Rightarrow> Inl (RuntimeError ''cannot open file'')
      | Some f \<Rightarrow> (case content f of
           None \<Rightarrow> Inl (RuntimeError ''cannot open file'')
         | Some t \<Rightarrow> Inr (field_names t)))"

text \<open>
  The loop of \<^verbatim>\<open>verify_key_field\<close> over an update cursor on the single field
  \<^verbatim>\<open>shape_key_field\<close>, so that \<^verbatim>\<open>row[0]\<close> is the row's key value. Python strings are
  immutable: \<^verbatim>\<open>row[0].strip()\<close> computes the trimmed string and drops it, \<^verbatim>\<open>updateRow(row)\<close>
  writes \<^verbatim>\<open>row[0]\<close> back as it was read, and \<^verbatim>\<open>len(row[0])\<close> is the length as read.
  The result holds the rows as written back and the two counters.
\<close>

fun verify_rows :: "string \<Rightarrow> row list \<Rightarrow> world \<Rightarrow> (row list \<times> nat \<times> nat) \<times> world" where
  "verify_rows key [] w = (([], 0, 0), w)"
| "verify_rows key (r # rs) w =
     (let row0 = r key;
          stripped = strip row0;
          written = r(key := row0)
      in if length row0 > 1
         then (case verify_rows key rs w of
                 ((rs', valid_rows, invalid_rows), w') \<Rightarrow>
                   ((written # rs', Suc valid_rows, invalid_rows), w'))
         else (case verify_rows key rs
                      (message (''@ '' @ quoted row0 @ '' is niot a valid '' @ key
                                @ ''. Removed row'') w) of
                 ((rs', valid_rows, invalid_rows), w') \<Rightarrow>
                   ((written # rs', valid_rows, Suc invalid_rows), w')))"

text \<open>
  \<^verbatim>\<open>verify_key_field\<close>: opening the cursor raises \<^verbatim>\<open>RuntimeError\<close> on an unreadable file and
  on a file without the column.
\<close>

definition verify_key_field :: "concerto_section \<Rightarrow> string \<Rightarrow> world \<Rightarrow> (exn + nat \<times> nat) \<times> world" where
  "verify_key_field s item w =
     (case map_of (shape_dir w) item of
        None \<Rightarrow> (Inl (RuntimeError ''cannot open file''), w)
      | Some f \<Rightarrow> (case content f of
           None \<Rightarrow> (Inl (RuntimeError ''cannot open file''), w)
         | Some t \<Rightarrow>
             if shape_key_field s \<notin> set (field_names t)
             then (Inl (RuntimeError ''A column was specified that does not exist.''), w)
             else (case verify_rows (shape_key_field s) (rows t) w of
                     ((rs', valid_rows, invalid_rows), w') \<Rightarrow>
                       (Inr (valid_rows, invalid_rows),
                        write_file item (f\<lparr>content := Some (t\<lparr>rows := rs'\<rparr>)\<rparr>) w'))))"

text \<open>
  The body of the loop of \<^verbatim>\<open>verify_shapes\<close> for one item, on the two lists built so far.
  \<^verbatim>\<open>except RuntimeError\<close> logs and goes on to the next item; any other exception leaves the
  method.
\<close>

definition verification_failed ::
  "string \<Rightarrow> string list \<times> string list \<Rightarrow> exn \<Rightarrow> world
     \<Rightarrow> (exn + string list \<times> string list) \<times> world" where
  "verification_failed item acc e w =
     (case e of
        RuntimeError m \<Rightarrow>
          (Inr acc, message (''~ Unable to attempt verification on '' @ item @ ''. '' @ m) w)
      | _ \<Rightarrow> (Inl e, w))"

definition verify_item ::
  "concerto_section \<Rightarrow> string \<Rightarrow> string \<Rightarrow> string list \<times> string list \<Rightarrow> world
     \<Rightarrow> (exn + string list \<times> string list) \<times> world" where
  "verify_item s key_field item acc w =
     (case acc of (dud_list, good_list) \<Rightarrow>
      (case ListFields_shape item w of
         Inl e \<Rightarrow> verification_failed item acc e w
       | Inr field_list \<Rightarrow>
           if field_list = []
           then (Inr (dud_list @ [item], good_list),
                 message (''~ '' @ item @ '' has no fields. Added to dud list'') w)
           else if key_field \<notin> set field_list
           then (Inr (dud_list @ [item], good_list),
                 message (''~ Field '' @ quoted (shape_key_field s)
                          @ '' not found. Added to dud list'') w)
           else (case verify_key_field s item w of
                   (Inl e, w') \<Rightarrow> verification_failed item acc e w'
                 | (Inr (valid_rows, invalid_rows), w') \<Rightarrow>
                     if valid_rows \<le> 0
                     then (Inr (dud_list @ [item], good_list),
                           message (''~ '' @ quoted item
                                    @ '' has no valid rows. Added to dud list'') w')
                     else (Inr (dud_list, good_list @ [item]),
                           if invalid_rows > 0
                           then message (''Verified '' @ quoted item @ '' with ''
                                         @ str_nat valid_rows @ '' valid and ''
                                         @ str_nat invalid_rows @ '' invalid shape(s)'') w'
                           else message (''Completed verifying '' @ quoted item @ '' with ''
                                         @ str_nat valid_rows @ '' valid shape(s)'') w'))))"

fun verify_loop ::
  "concerto_section \<Rightarrow> string \<Rightarrow> string list \<Rightarrow> string list \<times> string list \<Rightarrow> world
     \<Rightarrow> (exn + string list \<times> string list) \<times> world" where
  "verify_loop s key_field [] acc w = (Inr acc, w)"
| "verify_loop s key_field (item # items) acc w =
     (case verify_item s key_field item acc w of
        (Inl e, w') \<Rightarrow> (Inl e, w')
      | (Inr acc', w') \<Rightarrow> verify_loop s key_field items acc' w')"

text \<open>
  \<^verbatim>\<open>del_duds\<close> logs each rejected file; the deletion is commented out in the source.
\<close>

fun del_duds :: "string list \<Rightarrow> world \<Rightarrow> world" where
  "del_duds [] w = w"
| "del_duds (item # items) w =
     del_duds items (message (''@ '' @ item @ '' was malformed. Please investigate'') w)"

text \<open>
  \<open>verify_files\<close> is \<^verbatim>\<open>verify_shapes\<close> up to the end of its loop, with both lists;
  \<^verbatim>\<open>verify_shapes\<close> then calls \<^verbatim>\<open>del_duds\<close> and returns \<^verbatim>\<open>good_list\<close>. The parameter
  \<^verbatim>\<open>shapefile_folder\<close> of the method is not used by its body and is left out.
\<close>

definition verify_files ::
  "concerto_section \<Rightarrow> string \<Rightarrow> world \<Rightarrow> (exn + string list \<times> string list) \<times> world" where
  "verify_files s key_field w =
     (case create_list_of_shapes_to_verify w of
        (input_list, w') \<Rightarrow> verify_loop s key_field input_list ([], []) w')"

definition verify_shapes ::
  "concerto_section \<Rightarrow> string \<Rightarrow> world \<Rightarrow> (exn + string list) \<times> world" where
  "verify_shapes s key_field w =
     (case verify_files s key_field w of
        (Inl e, w') \<Rightarrow> (Inl e, w')
      | (Inr (dud_list, good_list), w') \<Rightarrow>
          (Inr good_list, if dud_list \<noteq> [] then del_duds dud_list w' else w'))"

section \<open>Renaming processed inputs\<close>

text \<open>
  \<^verbatim>\<open>rename_shape\<close>: after the assertion the method builds \<^verbatim>\<open>new_name\<close> and \<^verbatim>\<open>item_path\<close>, and
  then evaluates \<^verbatim>\<open>sef.shapefile_folder\<close>, where \<^verbatim>\<open>sef\<close> is bound nowhere: a \<^verbatim>\<open>NameError\<close>,
  raised outside the method's own \<^verbatim>\<open>try\<close>, so the call of \<^verbatim>\<open>arcpy.Rename_management\<close> (line
  465, written with one closing parenthesis too many) is not reached.
\<close>

definition rename_shape :: "concerto_section \<Rightarrow> string \<Rightarrow> world \<Rightarrow> (exn + unit) \<times> world" where
  "rename_shape s item w =
     (if \<not> (endswith item ''.shp'' \<and> \<not> startswith item ''__'')
      then (Inl AssertionError, w)
      else (Inl (NameError (''global name '' @ quoted ''sef'' @ '' is not defined'')), w))"

text \<open>\<^verbatim>\<open>finally_rename_shapes\<close>: \<^verbatim>\<open>except Exception\<close> logs whatever \<^verbatim>\<open>rename_shape\<close> raised.\<close>

fun finally_rename_shapes :: "concerto_section \<Rightarrow> string list \<Rightarrow> world \<Rightarrow> world" where
  "finally_rename_shapes s [] w = w"
| "finally_rename_shapes s (item # items) w =
     (case rename_shape s item w of
        (Inl e, w') \<Rightarrow>
          finally_rename_shapes s items
            (message (''~ Unable to rename '' @ item @ ''. Please check'') w')
      | (Inr u, w') \<Rightarrow> finally_rename_shapes s items w')"

section \<open>Retirement of processed inputs\<close>

text \<open>
  \<^verbatim>\<open>datetime.date.fromtimestamp\<close> and \<^verbatim>\<open>datetime.date.today\<close> give local calendar dates, each
  with the offset in force at its own timestamp; a date is modelled by its day number, and the
  difference of two dates has that many \<^verbatim>\<open>days\<close>.
\<close>

definition date_fromtimestamp :: "world \<Rightarrow> int \<Rightarrow> int" where
  "date_fromtimestamp w ts = (ts + utc_offset w ts) div 86400"

definition date_today :: "world \<Rightarrow> int" where
  "date_today w = date_fromtimestamp w (clock w)"

text \<open>\<^verbatim>\<open>arcpy.Delete_management\<close> on an input file.\<close>

definition Delete_shape :: "string \<Rightarrow> world \<Rightarrow> (exn + unit) \<times> world" where
  "Delete_shape item w =
     (case delete_error w item of
        Some m \<Rightarrow> (Inl (ExecuteError m), w)
      | None \<Rightarrow> (Inr (), w\<lparr>shape_dir := filter (\<lambda>(n, f). n \<noteq> item) (shape_dir w)\<rparr>))"

text \<open>
  The loop of \<^verbatim>\<open>retire_old_files\<close> over the listing taken before the loop.
  \<^verbatim>\<open>os.path.getmtime\<close> raises \<^verbatim>\<open>OSError\<close> on a name that is no longer there; nothing catches it.
\<close>

fun retire_loop :: "int \<Rightarrow> string list \<Rightarrow> world \<Rightarrow> (exn + unit) \<times> world" where
  "retire_loop today [] w = (Inr (), w)"
| "retire_loop today (item # items) w =
     (if startswith item ''__'' \<and> endswith item ''.shp''
      then (case map_of (shape_dir w) item of
              None \<Rightarrow> (Inl (OSError ''The system cannot find the file specified''), w)
            | Some f \<Rightarrow>
                (let last_modified = mtime f;
                     time_passed = date_fromtimestamp w last_modified;
                     age_days = today - time_passed
                 in if age_days \<ge> 30
                    then (case Delete_shape item w of
                            (Inr u, w') \<Rightarrow>
                              retire_loop today items
                                (message (item @ '' deleted as '' @ str_int age_days
                                          @ '' days old'') w')
                          | (Inl e, w') \<Rightarrow>
                              retire_loop today items
                                (message (''~ Unable to delete '' @ item @ ''. ''
                                          @ str_int age_days @ '' days old.''
                                          @ [CHR 0x0A] @ str_exn e) w'))
                    else retire_loop today items w))
      else retire_loop today items w)"

definition retire_old_files :: "world \<Rightarrow> (exn + unit) \<times> world" where
  "retire_old_files w = retire_loop (date_today w) (listdir w) w"

section \<open>The Reconciler\<close>

subsection \<open>The geodatabase operations it calls\<close>

definition Exists :: "string \<Rightarrow> world \<Rightarrow> bool" where
  "Exists fc w = (gdb w fc \<noteq> None)"

text \<open>
  \<^verbatim>\<open>arcpy.GetCount_management\<close> is a geoprocessing tool: on a dataset that does not exist it
  fails with \<^verbatim>\<open>ExecuteError\<close> (error 000732).
\<close>

definition GetCount_management :: "string \<Rightarrow> world \<Rightarrow> exn + nat" where
  "GetCount_management fc w =
     (case gdb w fc of
        None \<Rightarrow> Inl (ExecuteError
          (''ERROR 000732: Input Rows: Dataset '' @ fc @ '' does not exist or is not supported''))
      | Some t \<Rightarrow> Inr (length (rows t)))"

definition ListFields :: "string \<Rightarrow> world \<Rightarrow> exn + string list" where
  "ListFields fc w =
     (case gdb w fc of
        None \<Rightarrow> Inl (IOError (fc @ '' does not exist''))
      | Some t \<Rightarrow> Inr (field_names t))"

text \<open>
  Opening a cursor (\<^verbatim>\<open>arcpy.da.SearchCursor\<close>, \<^verbatim>\<open>arcpy.da.UpdateCursor\<close>) on a feature class
  and a list of field names: the table, or \<^verbatim>\<open>RuntimeError\<close>.
\<close>

definition open_cursor :: "string \<Rightarrow> string list \<Rightarrow> world \<Rightarrow> exn + table" where
  "open_cursor fc names w =
     (case gdb w fc of
        None \<Rightarrow> Inl (RuntimeError (''cannot open '' @ quoted fc))
      | Some t \<Rightarrow>
          if set names \<subseteq> set (field_names t) then Inr t
          else Inl (RuntimeError ''A column was specified that does not exist.''))"

text \<open>\<^verbatim>\<open>list.index\<close>: the first position of the value, or \<^verbatim>\<open>ValueError\<close> (here \<open>None\<close>).\<close>

fun index_of :: "'a \<Rightarrow> 'a list \<Rightarrow> nat option" where
  "index_of x [] = None"
| "index_of x (y # ys) =
     (if x = y then Some 0 else (case index_of x ys of None \<Rightarrow> None | Some i \<Rightarrow> Some (Suc i)))"

subsection \<open>The helper methods\<close>

definition create_master_list :: "concerto_section \<Rightarrow> world \<Rightarrow> exn + string list" where
  "create_master_list s w =
     (case open_cursor (live_fc s) [shape_key_field s] w of
        Inl e \<Rightarrow> Inl e
      | Inr t \<Rightarrow> Inr (map (\<lambda>r. r (shape_key_field s)) (rows t)))"

text \<open>\<^verbatim>\<open>get_index\<close> catches the \<^verbatim>\<open>ValueError\<close> of \<^verbatim>\<open>index\<close>, logs it and returns \<^verbatim>\<open>None\<close>.\<close>

definition get_index :: "concerto_section \<Rightarrow> world \<Rightarrow> (exn + nat option) \<times> world" where
  "get_index s w =
     (case ListFields (poly_fc s) w of
        Inl e \<Rightarrow> (Inl e, w)
      | Inr names \<Rightarrow>
          (case index_of (shape_key_field s) names of
             Some i \<Rightarrow> (Inr (Some i), w)
           | None \<Rightarrow>
               (Inr None,
                message (''~ Unable to find '' @ shape_key_field s @ '' in '' @ poly_fc s
                         @ ''. '' @ [CHR 0x0A] @ quoted (shape_key_field s)
                         @ '' is not in list'') w)))"

text \<open>
  The loop of \<^verbatim>\<open>delete_record\<close> over the rows of the live feature class: the rows that stay,
  and the log. A failing \<^verbatim>\<open>deleteRow\<close> is logged and the row stays.
\<close>

fun delete_rows :: "concerto_section \<Rightarrow> string \<Rightarrow> row list \<Rightarrow> world \<Rightarrow> row list \<times> world" where
  "delete_rows s del_value [] w = ([], w)"
| "delete_rows s del_value (r # rs) w =
     (if r (shape_key_field s) = del_value
      then (case row_delete_error w (live_fc s) r of
              None \<Rightarrow>
                delete_rows s del_value rs
                  (message (''Old value of '' @ del_value @ '' deleted from '' @ live_fc s) w)
            | Some m \<Rightarrow>
                (case delete_rows s del_value rs
                        (message (''~ Unable to delete old value of '' @ del_value @ '' from ''
                                  @ live_fc s @ ''. '' @ [CHR 0x0A] @ m) w) of
                   (rs', w') \<Rightarrow> (r # rs', w')))
      else (case delete_rows s del_value rs w of (rs', w') \<Rightarrow> (r # rs', w')))"

definition delete_record :: "concerto_section \<Rightarrow> string \<Rightarrow> world \<Rightarrow> (exn + unit) \<times> world" where
  "delete_record s del_value w =
     (case open_cursor (live_fc s) [shape_key_field s] w of
        Inl e \<Rightarrow> (Inl e, w)
      | Inr t \<Rightarrow>
          (case delete_rows s del_value (rows t) w of
             (rs', w') \<Rightarrow> (Inr (), w'\<lparr>gdb := (gdb w')(live_fc s \<mapsto> t\<lparr>rows := rs'\<rparr>)\<rparr>)))"

subsection \<open>process_updates\<close>

text \<open>
  \<^verbatim>\<open>process_updates\<close>, statement by statement.
  \<^item> \<^verbatim>\<open>GetCount_management\<close> is called before \<^verbatim>\<open>arcpy.Exists\<close> is asked, so on a missing
    candidate feature class its \<^verbatim>\<open>ExecuteError\<close> leaves the method before the test.
  \<^item> Line 385 reads \<^verbatim>\<open>arcpy.ListFields(self,poly_fc)\<close>: the second argument is the free name
    \<^verbatim>\<open>poly_fc\<close>, which neither the method nor the module nor the builtins bind (line 386 and
    \<^verbatim>\<open>get_index\<close> have \<^verbatim>\<open>self.live_fc\<close> and \<^verbatim>\<open>self.poly_fc\<close>). Evaluating the argument
    raises \<^verbatim>\<open>NameError\<close>, which nothing in the method catches, so lines 386 to 401 are not
    reached.
\<close>

definition process_updates :: "concerto_section \<Rightarrow> world \<Rightarrow> (exn + unit) \<times> world" where
  "process_updates s w0 =
     (let w = message ''Processing Updates'' w0
      in case GetCount_management (poly_fc s) w of
           Inl e \<Rightarrow> (Inl e, w)
         | Inr number_to_process \<Rightarrow>
             if \<not> Exists (poly_fc s) w \<or> number_to_process < 1
             then (Inr (), message ''No updates to process'' w)
             else (case create_master_list s w of
                     Inl e \<Rightarrow> (Inl e, w)
                   | Inr check_list \<Rightarrow>
                       (Inl (NameError (''global name '' @ quoted ''poly_fc'' @ '' is not defined'')), w)))"

subsection \<open>Lines 386 to 401\<close>

text \<open>
  The statements after line 385, as a function of the values the earlier lines bind
  (\<^verbatim>\<open>number_to_process\<close>, \<^verbatim>\<open>check_list\<close>, \<^verbatim>\<open>poly_names\<close>). \<^verbatim>\<open>process_updates\<close> does not
  get here; they are modelled to show what the method is written to do.

  \<^verbatim>\<open>row[polyindex]\<close> raises \<^verbatim>\<open>TypeError\<close> when \<^verbatim>\<open>polyindex\<close> is \<^verbatim>\<open>None\<close>.
\<close>

fun scan_rows ::
  "concerto_section \<Rightarrow> string list \<Rightarrow> nat option \<Rightarrow> string list list \<Rightarrow> nat \<times> nat \<Rightarrow> world
     \<Rightarrow> (exn + nat \<times> nat) \<times> world" where
  "scan_rows s check_list polyindex [] counts w = (Inr counts, w)"
| "scan_rows s check_list polyindex (row # others) counts w =
     (case counts of (replacement_records, new_records) \<Rightarrow>
      (case polyindex of
         None \<Rightarrow> (Inl (TypeError ''tuple indices must be integers, not NoneType''), w)
       | Some i \<Rightarrow>
           if \<not> i < length row then (Inl (IndexError ''tuple index out of range''), w)
           else if row ! i \<in> set check_list
           then (case delete_record s (row ! i) w of
                   (Inl e, w') \<Rightarrow> (Inl e, w')
                 | (Inr u, w') \<Rightarrow>
                     scan_rows s check_list polyindex others
                       (Suc replacement_records, new_records) w')
           else scan_rows s check_list polyindex others
                  (replacement_records, Suc new_records) w))"

text \<open>\<^verbatim>\<open>arcpy.Append_management(source, target, "NO_TEST")\<close>: the rows of the source after
  those of the target.\<close>

definition Append_management :: "string \<Rightarrow> string \<Rightarrow> world \<Rightarrow> (exn + unit) \<times> world" where
  "Append_management src dst w =
     (case append_error w of
        Some m \<Rightarrow> (Inl (ExecuteError m), w)
      | None \<Rightarrow>
          (case gdb w src of
             None \<Rightarrow> (Inl (ExecuteError ''ERROR 000732: Input Datasets: Dataset does not exist''), w)
           | Some a \<Rightarrow>
               (case gdb w dst of
                  None \<Rightarrow>
                    (Inl (ExecuteError ''ERROR 000732: Target Dataset: Dataset does not exist''), w)
                | Some b \<Rightarrow>
                    (Inr (), w\<lparr>gdb := (gdb w)(dst \<mapsto> b\<lparr>rows := rows b @ rows a\<rparr>)\<rparr>))))"

definition lines_386_to_401 ::
  "concerto_section \<Rightarrow> nat \<Rightarrow> string list \<Rightarrow> string list \<Rightarrow> world \<Rightarrow> (exn + unit) \<times> world" where
  "lines_386_to_401 s number_to_process check_list poly_names w =
     (case ListFields (live_fc s) w of
        Inl e \<Rightarrow> (Inl e, w)
      | Inr live_names \<Rightarrow>
          (case get_index s w of
             (Inl e, w1) \<Rightarrow> (Inl e, w1)
           | (Inr polyindex, w1) \<Rightarrow>
               (case open_cursor (poly_fc s) poly_names w1 of
                  Inl e \<Rightarrow> (Inl e, w1)
                | Inr t \<Rightarrow>
                    (case scan_rows s check_list polyindex
                            (map (\<lambda>r. map r poly_names) (rows t)) (0, 0) w1 of
                       (Inl e, w2) \<Rightarrow> (Inl e, w2)
                     | (Inr (replacement_records, new_records), w2) \<Rightarrow>
                         (case Append_management (poly_fc s) (live_fc s) w2 of
                            (Inl e, w3) \<Rightarrow>
                              (Inl e, message (''~ Unable to add new shapes to live. ''
                                               @ str_exn e) w3)
                          | (Inr u, w3) \<Rightarrow>
                              (Inr (), message (str_nat number_to_process
                                                @ '' shapes added to live. ''
                                                @ str_nat new_records @ '' new and ''
                                                @ str_nat replacement_records
                                                @ '' replacements'') w3))))))"

subsection \<open>The caller\<close>

text \<open>
  The end of the \<^verbatim>\<open>try\<close> block of \<^verbatim>\<open>wrapper\<close> (lines 53 to 56): \<^verbatim>\<open>process_updates\<close>, then
  \<^verbatim>\<open>finally_rename_shapes\<close>, and the clause \<^verbatim>\<open>except Exception\<close>, which logs one line for
  whatever was raised. The statements of the block before line 53 build the candidate feature
  class with \<^verbatim>\<open>arcpy\<close>; the world is taken as they leave it.
\<close>

definition wrapper_lines_53_to_56 :: "concerto_section \<Rightarrow> string list \<Rightarrow> world \<Rightarrow> world" where
  "wrapper_lines_53_to_56 s verified_shapes w =
     (case process_updates s w of
        (Inl e, w') \<Rightarrow> message (''~ Unable to update '' @ live_fc s @ ''. '' @ str_exn e) w'
      | (Inr u, w') \<Rightarrow> finally_rename_shapes s verified_shapes w')"

section \<open>Notions used to state the properties\<close>

text \<open>\<open>logged w w'\<close>: the world \<open>w'\<close> is \<open>w\<close> with some lines added to the log and nothing else changed.\<close>

definition logged :: "world \<Rightarrow> world \<Rightarrow> bool" where
  "logged w w' = (\<exists>ms. w' = w\<lparr>log_lines := log_lines w @ ms\<rparr>)"

text \<open>The test of the comprehension in \<^verbatim>\<open>create_list_of_shapes_to_verify\<close> on one name.\<close>

definition eligible :: "world \<Rightarrow> string \<Rightarrow> bool" where
  "eligible w item =
     (endswith item ''.shp'' \<and> \<not> startswith item ''__'' \<and> lock_check_list item w = [])"

text \<open>
  The numbers of rows \<^verbatim>\<open>verify_key_field\<close> counts as valid and as invalid. Its test is
  \<^verbatim>\<open>len(row[0]) > 1\<close> on the key as read, padding included.
\<close>

definition counted_valid :: "string \<Rightarrow> table \<Rightarrow> nat" where
  "counted_valid key t = length (filter (\<lambda>r. 1 < length (r key)) (rows t))"

definition counted_invalid :: "string \<Rightarrow> table \<Rightarrow> nat" where
  "counted_invalid key t = length (filter (\<lambda>r. \<not> 1 < length (r key)) (rows t))"

text \<open>
  The number of valid rows in the sense of the specification: the rows whose key, after
  trimming surrounding whitespace, is longer than one character.
\<close>

definition trimmed_valid_count :: "string \<Rightarrow> table \<Rightarrow> nat" where
  "trimmed_valid_count key t = length (filter (\<lambda>r. 1 < length (strip (r key))) (rows t))"

text \<open>The attribute table of a file of the input folder, when it is readable.\<close>

definition file_table :: "world \<Rightarrow> string \<Rightarrow> table option" where
  "file_table w item = (case map_of (shape_dir w) item of None \<Rightarrow> None | Some f \<Rightarrow> content f)"

text \<open>The files the loop of \<^verbatim>\<open>verify_shapes\<close> appends to \<^verbatim>\<open>good_list\<close> and to \<^verbatim>\<open>dud_list\<close>.\<close>

definition accepted :: "concerto_section \<Rightarrow> world \<Rightarrow> string \<Rightarrow> bool" where
  "accepted s w item =
     (case file_table w item of
        None \<Rightarrow> False
      | Some t \<Rightarrow> field_names t \<noteq> [] \<and> shape_key_field s \<in> set (field_names t)
                 \<and> 0 < counted_valid (shape_key_field s) t)"

definition rejected :: "concerto_section \<Rightarrow> world \<Rightarrow> string \<Rightarrow> bool" where
  "rejected s w item =
     (case file_table w item of
        None \<Rightarrow> False
      | Some t \<Rightarrow> field_names t = [] \<or> shape_key_field s \<notin> set (field_names t)
                 \<or> counted_valid (shape_key_field s) t = 0)"

text \<open>The line \<^verbatim>\<open>verify_shapes\<close> logs for a file with valid and invalid rows.\<close>

definition report_mixed :: "string \<Rightarrow> nat \<Rightarrow> nat \<Rightarrow> string" where
  "report_mixed item valid_rows invalid_rows =
     ''Verified '' @ quoted item @ '' with '' @ str_nat valid_rows @ '' valid and ''
       @ str_nat invalid_rows @ '' invalid shape(s)''"

text \<open>The test \<^verbatim>\<open>retire_old_files\<close> makes on a name and its file, and the line it logs when the
  deletion fails.\<close>

definition expired :: "world \<Rightarrow> int \<Rightarrow> string \<Rightarrow> shapefile \<Rightarrow> bool" where
  "expired w today n f =
     (startswith n ''__'' \<and> endswith n ''.shp'' \<and> 30 \<le> today - date_fromtimestamp w (mtime f))"

definition delete_failure_line :: "world \<Rightarrow> int \<Rightarrow> string \<Rightarrow> shapefile \<Rightarrow> string \<Rightarrow> string" where
  "delete_failure_line w today n f m =
     ''~ Unable to delete '' @ n @ ''. '' @ str_int (today - date_fromtimestamp w (mtime f))
       @ '' days old.'' @ [CHR 0x0A] @ m"

text \<open>What the retirement loop leaves alone.\<close>

definition retire_frame :: "world \<Rightarrow> world \<Rightarrow> bool" where
  "retire_frame w w' =
     (utc_offset w' = utc_offset w \<and> delete_error w' = delete_error w \<and> gdb w' = gdb w
      \<and> clock w' = clock w \<and> set (log_lines w) \<subseteq> set (log_lines w'))"

text \<open>The key values of the rows of the live and of the candidate feature class.\<close>

definition live_keys :: "concerto_section \<Rightarrow> world \<Rightarrow> string list" where
  "live_keys s w =
     (case gdb w (live_fc s) of None \<Rightarrow> [] | Some t \<Rightarrow> map (\<lambda>r. r (shape_key_field s)) (rows t))"

definition candidate_keys :: "concerto_section \<Rightarrow> world \<Rightarrow> string list" where
  "candidate_keys s w =
     (case gdb w (poly_fc s) of None \<Rightarrow> [] | Some t \<Rightarrow> map (\<lambda>r. r (shape_key_field s)) (rows t))"

text \<open>
  The geodatabase after \<^verbatim>\<open>delete_record\<close> has run for the key values \<open>D\<close>: the live rows with a
  key in \<open>D\<close> are gone, but for those whose deletion fails.
\<close>

definition after_deletes :: "concerto_section \<Rightarrow> string set \<Rightarrow> world \<Rightarrow> string \<Rightarrow> table option" where
  "after_deletes s D w =
     (case gdb w (live_fc s) of
        None \<Rightarrow> gdb w
      | Some t \<Rightarrow> (gdb w)(live_fc s \<mapsto> t\<lparr>rows :=
          filter (\<lambda>r. \<not> (r (shape_key_field s) \<in> D \<and> row_delete_error w (live_fc s) r = None))
            (rows t)\<rparr>))"

text \<open>The line the \<^verbatim>\<open>except\<close> clause of \<^verbatim>\<open>wrapper\<close> logs.\<close>

definition abort_line :: "concerto_section \<Rightarrow> exn \<Rightarrow> string" where
  "abort_line s e = ''~ Unable to update '' @ live_fc s @ ''. '' @ str_exn e"

section \<open>Concrete inputs\<close>

text \<open>A row given by its attribute values; a field that is not listed is empty.\<close>

definition attr_row :: "(string \<times> string) list \<Rightarrow> row" where
  "attr_row kvs f = (case map_of kvs f of Some v \<Rightarrow> v | None \<Rightarrow> [])"

text \<open>A world with nothing in it, where no \<^verbatim>\<open>arcpy\<close> operation fails.\<close>

definition bare_world :: world where
  "bare_world = \<lparr>gdb = Map.empty, shape_dir = [], delete_error = (\<lambda>item. None),
     row_delete_error = (\<lambda>fc r. None), append_error = None, clock = 0, utc_offset = (\<lambda>ts. 0),
     log_lines = []\<rparr>"

text \<open>A table with the key field \<^verbatim>\<open>REFVAL\<close> and one more attribute.\<close>

definition keyed_table :: "(string \<times> string) list \<Rightarrow> table" where
  "keyed_table kvs = \<lparr>field_names = [''REFVAL'', ''VERSION''],
     rows = map (\<lambda>(k, v). attr_row [(''REFVAL'', k), (''VERSION'', v)]) kvs\<rparr>"

text \<open>A file of five rows, three with a key and two with a blank key.\<close>

definition five_rows :: table where
  "five_rows = keyed_table [(''A1'', ''v1''), ('''', ''v1''), (''B2'', ''v1''), ('''', ''v1''),
     (''C3'', ''v1'')]"

definition five_row_world :: world where
  "five_row_world = bare_world\<lparr>shape_dir := [(''X.shp'', \<lparr>mtime = 0, content = Some five_rows\<rparr>)]\<rparr>"

text \<open>A file whose only row has the key \<^verbatim>\<open>" A"\<close>: two characters as stored, one when trimmed.\<close>

definition padded_world :: world where
  "padded_world = bare_world\<lparr>shape_dir :=
     [(''X.shp'', \<lparr>mtime = 0, content = Some (keyed_table [('' A'', ''v1'')])\<rparr>)]\<rparr>"

text \<open>A file of two rows whose keys are two and three blanks.\<close>

definition blank_keys :: table where
  "blank_keys = keyed_table [(''  '', ''v1''), (''   '', ''v1'')]"

definition blank_keys_world :: world where
  "blank_keys_world = bare_world\<lparr>shape_dir := [(''X.shp'', \<lparr>mtime = 0, content = Some blank_keys\<rparr>)]\<rparr>"

text \<open>
  An input folder where \<^verbatim>\<open>Site10.shp\<close> is being written (its lock file is there) and
  \<^verbatim>\<open>Site1.shp\<close> is not.
\<close>

definition prefix_lock_world :: world where
  "prefix_lock_world = bare_world\<lparr>shape_dir :=
     [(''Site1.shp'', \<lparr>mtime = 0, content = Some (keyed_table [(''A1'', ''v1'')])\<rparr>),
      (''Site10.shp'', \<lparr>mtime = 0, content = Some (keyed_table [(''B2'', ''v1'')])\<rparr>),
      (''Site10.shp.lock'', \<lparr>mtime = 0, content = None\<rparr>)]\<rparr>"

text \<open>Two processed files, last modified 31 and 29 days before the run.\<close>

definition month_world :: world where
  "month_world = bare_world\<lparr>clock := 100 * 86400 + 500, shape_dir :=
     [(''__old.shp'', \<lparr>mtime = 69 * 86400 + 500, content = None\<rparr>),
      (''__new.shp'', \<lparr>mtime = 71 * 86400 + 500, content = None\<rparr>)]\<rparr>"

text \<open>
  A processed file last modified one second before midnight of day 0, and a run at midnight
  of day 30: the file is 29 days and one second old.
\<close>

definition late_world :: world where
  "late_world = bare_world\<lparr>clock := 30 * 86400, shape_dir :=
     [(''__X.shp'', \<lparr>mtime = 86399, content = None\<rparr>)]\<rparr>"

text \<open>
  A processed file last modified on 10 March 2019 at 23:30 UTC, and a run exactly 29 days
  later, in a time zone that moves its clocks one hour forward on 31 March 2019 at 01:00 UTC.
\<close>

definition summer_time_world :: world where
  "summer_time_world = bare_world\<lparr>clock := 1554766200,
     utc_offset := (\<lambda>ts. if ts < 1553994000 then 0 else 3600),
     shape_dir := [(''__X.shp'', \<lparr>mtime = 1552260600, content = None\<rparr>)]\<rparr>"

text \<open>A live feature class with keys A and B, and a candidate feature class without rows.\<close>

definition idle_world :: world where
  "idle_world = bare_world\<lparr>gdb :=
     [''Disposals_Live'' \<mapsto> keyed_table [(''A'', ''v1''), (''B'', ''v1'')],
      ''Disposals_Poly'' \<mapsto> keyed_table []]\<rparr>"

text \<open>Live rows A:v1 and B:v1, candidate rows A:v2 and C:v1.\<close>

definition scenario_world :: world where
  "scenario_world = bare_world\<lparr>gdb :=
     [''Disposals_Live'' \<mapsto> keyed_table [(''A'', ''v1''), (''B'', ''v1'')],
      ''Disposals_Poly'' \<mapsto> keyed_table [(''A'', ''v2''), (''C'', ''v1'')]]\<rparr>"




text \<open>A geodatabase without the candidate feature class.\<close>

definition missing_candidate_world :: world where
  "missing_candidate_world = bare_world\<lparr>gdb :=
     [''Disposals_Live'' \<mapsto> keyed_table [(''A'', ''v1''), (''B'', ''v1'')]]\<rparr>"

text \<open>A candidate feature class of one row whose fields do not include \<^verbatim>\<open>REFVAL\<close>.\<close>

definition malformed_table :: table where
  "malformed_table = \<lparr>field_names = [''ESTATESREF'', ''VERSION''],
     rows = [attr_row [(''ESTATESREF'', ''A''), (''VERSION'', ''v2'')]]\<rparr>"

definition malformed_world :: world where
  "malformed_world = bare_world\<lparr>gdb :=
     [''Disposals_Live'' \<mapsto> keyed_table [(''A'', ''v1''), (''B'', ''v1'')],
      ''Disposals_Poly'' \<mapsto> malformed_table]\<rparr>"

section \<open>Changes that only add log lines\<close>

lemma logged_refl: "logged w w"
  unfolding logged_def by (rule exI [of _ "[]"]) simp

lemma logged_message: "logged w (message m w)"
  unfolding logged_def message_def by blast

lemma logged_trans: "logged w w' \<Longrightarrow> logged w' w'' \<Longrightarrow> logged w w''"
  unfolding logged_def by auto

lemma logged_then_message: "logged w w' \<Longrightarrow> logged w (message m w')"
  by (rule logged_trans [OF _ logged_message])

text \<open>Such a change leaves every other component of the world as it was.\<close>

lemma logged_fields:
  assumes "logged w w'"
  shows "gdb w' = gdb w" and "shape_dir w' = shape_dir w" and "delete_error w' = delete_error w"
    and "row_delete_error w' = row_delete_error w" and "append_error w' = append_error w"
    and "clock w' = clock w" and "utc_offset w' = utc_offset w"
    and "listdir w' = listdir w"
  using assms unfolding logged_def listdir_def by auto

lemma logged_log: "logged w w' \<Longrightarrow> set (log_lines w) \<subseteq> set (log_lines w')"
  unfolding logged_def by auto

section \<open>Properties of discovery\<close>

lemma lock_check_list_listdir:
  "listdir w' = listdir w \<Longrightarrow> lock_check_list item w' = lock_check_list item w"
  by (simp add: lock_check_list_def)

lemma has_lock_file_fst: "fst (has_lock_file item w) = (lock_check_list item w \<noteq> [])"
  by (simp add: has_lock_file_def Let_def)

lemma has_lock_file_logged: "logged w (snd (has_lock_file item w))"
  by (simp add: has_lock_file_def Let_def logged_refl logged_message)

lemma shapes_to_verify_result:
  "listdir w = listdir w0 \<Longrightarrow>
   fst (shapes_to_verify items w) = filter (eligible w0) items \<and>
   logged w (snd (shapes_to_verify items w))"
proof (induction items arbitrary: w)
  case Nil
  show ?case by (simp add: logged_refl)
next
  case (Cons item items)
  show ?case
  proof (cases "endswith item ''.shp'' \<and> \<not> startswith item ''__''")
    case False
    then have "\<not> eligible w0 item" by (auto simp: eligible_def)
    with False Cons show ?thesis by auto
  next
    case True
    obtain b w1 where h: "has_lock_file item w = (b, w1)" by (cases "has_lock_file item w")
    have b: "b = (lock_check_list item w0 \<noteq> [])"
      using has_lock_file_fst [of item w] h lock_check_list_listdir [OF Cons.prems] by simp
    have l1: "logged w w1" using has_lock_file_logged [of w item] h by simp
    then have "listdir w1 = listdir w0" using Cons.prems by (simp add: logged_fields)
    from Cons.IH [OF this]
    have ih: "fst (shapes_to_verify items w1) = filter (eligible w0) items"
      and l2: "logged w1 (snd (shapes_to_verify items w1))" by simp_all
    have l: "logged w (snd (shapes_to_verify items w1))" by (rule logged_trans [OF l1 l2])
    have e: "eligible w0 item = (\<not> b)" using True b by (simp add: eligible_def)
    show ?thesis
      using True h e ih l by (cases b) (auto split: prod.splits)
  qed
qed

text \<open>
  The candidate list is the directory listing filtered by the three tests, in listing order,
  and building it only writes log lines.
\<close>

lemma create_list_result:
  "fst (create_list_of_shapes_to_verify w) = filter (eligible w) (listdir w)"
  "logged w (snd (create_list_of_shapes_to_verify w))"
  using shapes_to_verify_result [of w w "listdir w"]
  by (simp_all add: create_list_of_shapes_to_verify_def)

text \<open>The definitions unfolded to evaluate the concrete runs.\<close>

lemmas concrete_defs = bare_world_def keyed_table_def attr_row_def AcqDisp_def
  startswith_def endswith_def listdir_def lock_check_list_def eligible_def file_table_def
  counted_valid_def counted_invalid_def

text \<open>
  Claim C8 (discovery exclusion rule): the candidate list is to hold exactly the names that end
  in \<^verbatim>\<open>.shp\<close>, do not start with \<^verbatim>\<open>__\<close> and have no lock file of the same stem.
  \<^verbatim>\<open>has_lock_file\<close> tests \<^verbatim>\<open>name.startswith(shapefile[:-4])\<close>, so the lock file of
  \<^verbatim>\<open>Site10.shp\<close> also counts as a lock on \<^verbatim>\<open>Site1.shp\<close>: in a folder where only
  \<^verbatim>\<open>Site10.shp\<close> has a lock file the candidate list is empty, and \<^verbatim>\<open>Site1\<close> is logged as
  locked. The exclusion of the names that start with \<^verbatim>\<open>__\<close> and of the names without the
  extension holds for every folder (\<open>create_list_result\<close>).
\<close>

theorem lock_of_longer_name_hides_file:
  "create_list_of_shapes_to_verify prefix_lock_world =
     ([], prefix_lock_world\<lparr>log_lines :=
            [''Site1 is locked. Skipping verification'',
             ''Site10 is locked. Skipping verification'']\<rparr>)"
  by (simp add: create_list_of_shapes_to_verify_def has_lock_file_def message_def
      prefix_lock_world_def Let_def concrete_defs)

text \<open>The input of that run: the one lock file of the folder matches the prefix \<^verbatim>\<open>Site1\<close>.\<close>

theorem lock_of_longer_name_hides_file_witness:
  "listdir prefix_lock_world = [''Site1.shp'', ''Site10.shp'', ''Site10.shp.lock'']
   \<and> lock_check_list ''Site1.shp'' prefix_lock_world = [''Site10.shp.lock'']
   \<and> fst (create_list_of_shapes_to_verify prefix_lock_world) = []"
proof -
  have a: "listdir prefix_lock_world = [''Site1.shp'', ''Site10.shp'', ''Site10.shp.lock'']
     \<and> lock_check_list ''Site1.shp'' prefix_lock_world = [''Site10.shp.lock'']"
    by (simp add: prefix_lock_world_def concrete_defs)
  from lock_of_longer_name_hides_file
  have "fst (create_list_of_shapes_to_verify prefix_lock_world) = []" by simp
  with a show ?thesis by blast
qed

section \<open>Properties of the Verifier\<close>

text \<open>
  The cursor loop writes every row back as it was read, and counts by the length of the key as
  read.
\<close>

lemma verify_rows_result:
  "\<exists>w'. verify_rows key rs w =
          ((rs, length (filter (\<lambda>r. 1 < length (r key)) rs),
                length (filter (\<lambda>r. \<not> 1 < length (r key)) rs)), w')
        \<and> logged w w'"
proof (induction rs arbitrary: w)
  case Nil
  show ?case by (simp add: logged_refl)
next
  case (Cons r rs)
  show ?case
  proof (cases "1 < length (r key)")
    case True
    from Cons [of w] True show ?thesis by (auto simp: Let_def)
  next
    case False
    let ?w1 = "message (''@ '' @ quoted (r key) @ '' is niot a valid '' @ key
                                @ ''. Removed row'') w"
    from Cons [of ?w1] obtain w' where
      h: "verify_rows key rs ?w1 =
          ((rs, length (filter (\<lambda>r. 1 < length (r key)) rs),
                length (filter (\<lambda>r. \<not> 1 < length (r key)) rs)), w')"
      and l: "logged ?w1 w'" by blast
    have "logged w w'" by (rule logged_trans [OF logged_message l])
    with False h show ?thesis by (simp add: Let_def)
  qed
qed

lemma update_entry_same: "map_of es item = Some f \<Longrightarrow> update_entry item f es = es"
  by (induction es) (auto split: if_splits)

lemma write_file_same:
  "map_of (shape_dir w) item = Some f \<Longrightarrow> write_file item f w = w"
  by (simp add: write_file_def update_entry_same)

lemma verify_key_field_result:
  assumes "file_table w item = Some t" and "shape_key_field s \<in> set (field_names t)"
  shows "\<exists>w'. verify_key_field s item w =
           (Inr (counted_valid (shape_key_field s) t, counted_invalid (shape_key_field s) t), w')
         \<and> logged w w'"
proof -
  from assms(1) obtain f where f: "map_of (shape_dir w) item = Some f" and c: "content f = Some t"
    by (auto simp: file_table_def split: option.splits)
  obtain w' where
    h: "verify_rows (shape_key_field s) (rows t) w =
          ((rows t, counted_valid (shape_key_field s) t, counted_invalid (shape_key_field s) t), w')"
    and l: "logged w w'"
    using verify_rows_result [of "shape_key_field s" "rows t" w]
    by (auto simp: counted_valid_def counted_invalid_def)
  have "f\<lparr>content := Some (t\<lparr>rows := rows t\<rparr>)\<rparr> = f" using c by simp
  moreover have "map_of (shape_dir w') item = Some f" using f l by (simp add: logged_fields)
  ultimately have "write_file item (f\<lparr>content := Some (t\<lparr>rows := rows t\<rparr>)\<rparr>) w' = w'"
    by (simp add: write_file_same)
  with f c assms(2) h l show ?thesis by (simp add: verify_key_field_def)
qed

text \<open>
  Claim C6 (trimming side effect and validity criterion): \<^verbatim>\<open>verify_key_field\<close> is to replace the
  key of every row by its trimmed form, and to count a row as valid exactly when the trimmed key
  is longer than one character. On a file whose only row has the key \<^verbatim>\<open>" A"\<close> the method counts
  one valid and no invalid row and leaves the world, and with it the stored key, as it was,
  while the trimmed key \<^verbatim>\<open>"A"\<close> has length one: the value of \<^verbatim>\<open>row[0].strip()\<close> is not bound
  to anything.
\<close>

theorem verify_key_field_keeps_padding:
  "verify_key_field AcqDisp ''X.shp'' padded_world = (Inr (1, 0), padded_world)
   \<and> file_table padded_world ''X.shp'' = Some (keyed_table [('' A'', ''v1'')])
   \<and> strip '' A'' = ''A'' \<and> \<not> 1 < length (strip '' A'')"
  by (simp add: verify_key_field_def padded_world_def write_file_def strip_def isspace_def fun_upd_idem_iff
      Let_def concrete_defs)

text \<open>The input of that run, and the key the file holds afterwards.\<close>

theorem verify_key_field_keeps_padding_witness:
  "shape_key_field AcqDisp \<in> set (field_names (keyed_table [('' A'', ''v1'')]))
   \<and> map (\<lambda>r. r ''REFVAL'') (rows (keyed_table [('' A'', ''v1'')])) = ['' A'']
   \<and> fst (verify_key_field AcqDisp ''X.shp'' padded_world) = Inr (1, 0)
   \<and> file_table (snd (verify_key_field AcqDisp ''X.shp'' padded_world)) ''X.shp''
       = Some (keyed_table [('' A'', ''v1'')])"
proof -
  have a: "shape_key_field AcqDisp \<in> set (field_names (keyed_table [('' A'', ''v1'')]))
     \<and> map (\<lambda>r. r ''REFVAL'') (rows (keyed_table [('' A'', ''v1'')])) = ['' A'']"
    by (simp add: concrete_defs)
  from verify_key_field_keeps_padding
  have e: "verify_key_field AcqDisp ''X.shp'' padded_world = (Inr (1, 0), padded_world)"
    and t: "file_table padded_world ''X.shp'' = Some (keyed_table [('' A'', ''v1'')])"
    by blast+
  have "fst (verify_key_field AcqDisp ''X.shp'' padded_world) = Inr (1, 0)"
    and "file_table (snd (verify_key_field AcqDisp ''X.shp'' padded_world)) ''X.shp''
         = Some (keyed_table [('' A'', ''v1'')])"
    by (simp_all only: e fst_conv snd_conv t)
  with a show ?thesis by blast
qed

lemma verify_item_result:
  "\<exists>w'. verify_item s (shape_key_field s) item (dud, good) w =
          (Inr (if rejected s w item then dud @ [item] else dud,
                if accepted s w item then good @ [item] else good), w')
        \<and> logged w w'"
proof (cases "file_table w item")
  case None
  then have "\<exists>m. ListFields_shape item w = Inl (RuntimeError m)"
    by (auto simp: ListFields_shape_def file_table_def split: option.splits)
  with None show ?thesis
    by (auto simp: verify_item_def verification_failed_def accepted_def rejected_def logged_message)
next
  case (Some t)
  then have lf: "ListFields_shape item w = Inr (field_names t)"
    by (auto simp: ListFields_shape_def file_table_def split: option.splits)
  show ?thesis
  proof (cases "field_names t = [] \<or> shape_key_field s \<notin> set (field_names t)")
    case True
    with Some lf show ?thesis
      by (auto simp: verify_item_def accepted_def rejected_def logged_message)
  next
    case False
    then have k: "shape_key_field s \<in> set (field_names t)" by simp
    from verify_key_field_result [OF Some k] obtain w' where
      h: "verify_key_field s item w =
           (Inr (counted_valid (shape_key_field s) t, counted_invalid (shape_key_field s) t), w')"
      and l: "logged w w'" by blast
    show ?thesis
    proof (cases "counted_valid (shape_key_field s) t = 0")
      case True
      with Some lf False h show ?thesis
        by (simp add: verify_item_def accepted_def rejected_def logged_then_message [OF l])
    next
      case v: False
      with Some lf False h show ?thesis
        by (simp add: verify_item_def accepted_def rejected_def logged_then_message [OF l])
    qed
  qed
qed

lemma accepted_logged: "logged w w' \<Longrightarrow> accepted s w' = accepted s w"
  by (simp add: accepted_def file_table_def logged_fields fun_eq_iff)

lemma rejected_logged: "logged w w' \<Longrightarrow> rejected s w' = rejected s w"
  by (simp add: rejected_def file_table_def logged_fields fun_eq_iff)

text \<open>
  The loop of \<^verbatim>\<open>verify_shapes\<close> raises nothing, appends the rejected files to \<^verbatim>\<open>dud_list\<close>
  and the accepted ones to \<^verbatim>\<open>good_list\<close>, in order, and only writes log lines.
\<close>

lemma verify_loop_result:
  "\<exists>w'. verify_loop s (shape_key_field s) items (dud, good) w =
          (Inr (dud @ filter (rejected s w) items, good @ filter (accepted s w) items), w')
        \<and> logged w w'"
proof (induction items arbitrary: dud good w)
  case Nil
  show ?case by (simp add: logged_refl)
next
  case (Cons item items)
  let ?dud = "if rejected s w item then dud @ [item] else dud"
  let ?good = "if accepted s w item then good @ [item] else good"
  from verify_item_result [of s item dud good w] obtain w1 where
    h1: "verify_item s (shape_key_field s) item (dud, good) w = (Inr (?dud, ?good), w1)"
    and l1: "logged w w1" by blast
  from Cons [of ?dud ?good w1] obtain w2 where
    h2: "verify_loop s (shape_key_field s) items (?dud, ?good) w1 =
          (Inr (?dud @ filter (rejected s w1) items, ?good @ filter (accepted s w1) items), w2)"
    and l2: "logged w1 w2" by blast
  have "logged w w2" by (rule logged_trans [OF l1 l2])
  with h1 h2 accepted_logged [OF l1, of s] rejected_logged [OF l1, of s]
  show ?case by simp
qed

lemma verify_item_reports:
  assumes "file_table w item = Some t" and "field_names t \<noteq> []"
    and "shape_key_field s \<in> set (field_names t)"
    and "0 < counted_valid (shape_key_field s) t" and "0 < counted_invalid (shape_key_field s) t"
  shows "report_mixed item (counted_valid (shape_key_field s) t) (counted_invalid (shape_key_field s) t)
           \<in> set (log_lines (snd (verify_item s (shape_key_field s) item acc w)))"
proof -
  have lf: "ListFields_shape item w = Inr (field_names t)"
    using assms(1) by (auto simp: ListFields_shape_def file_table_def split: option.splits)
  from verify_key_field_result [OF assms(1) assms(3)] obtain w' where
    h: "verify_key_field s item w =
         (Inr (counted_valid (shape_key_field s) t, counted_invalid (shape_key_field s) t), w')"
    by blast
  from lf h assms(2-5) show ?thesis
    by (cases acc) (simp add: verify_item_def message_def report_mixed_def)
qed

lemma file_table_logged: "logged w w' \<Longrightarrow> file_table w' item = file_table w item"
  by (simp add: file_table_def logged_fields)

lemma verify_loop_reports:
  assumes "file_table w item = Some t" and "field_names t \<noteq> []"
    and "shape_key_field s \<in> set (field_names t)"
    and "0 < counted_valid (shape_key_field s) t" and "0 < counted_invalid (shape_key_field s) t"
    and "item \<in> set items"
  shows "report_mixed item (counted_valid (shape_key_field s) t) (counted_invalid (shape_key_field s) t)
           \<in> set (log_lines (snd (verify_loop s (shape_key_field s) items acc w)))"
  using assms(1,6)
proof (induction items arbitrary: acc w)
  case Nil
  then show ?case by simp
next
  case (Cons x items)
  obtain dud good where acc: "acc = (dud, good)" by (cases acc)
  let ?m = "report_mixed item (counted_valid (shape_key_field s) t) (counted_invalid (shape_key_field s) t)"
  from verify_item_result [of s x dud good w] obtain acc1 w1 where
    h1: "verify_item s (shape_key_field s) x acc w = (Inr acc1, w1)" and l1: "logged w w1"
    unfolding acc by blast
  obtain dud1 good1 where acc1: "acc1 = (dud1, good1)" by (cases acc1)
  from verify_loop_result [of s items dud1 good1 w1] obtain r2 w2 where
    h2: "verify_loop s (shape_key_field s) items acc1 w1 = (r2, w2)" and l2: "logged w1 w2"
    unfolding acc1 by blast
  have ft: "file_table w1 item = Some t" using Cons.prems(1) l1 by (simp add: file_table_logged)
  show ?case
  proof (cases "x = item")
    case True
    have "?m \<in> set (log_lines w1)"
      using verify_item_reports [OF Cons.prems(1) assms(2-5), of acc] h1 True by simp
    then have "?m \<in> set (log_lines w2)" using logged_log [OF l2] by blast
    with h1 h2 show ?thesis by simp
  next
    case False
    then have "item \<in> set items" using Cons.prems(2) by simp
    from Cons.IH [OF ft this, of acc1] h1 show ?thesis by simp
  qed
qed

text \<open>
  The whole-file rule in terms of the Verifier's own count: a discovered, readable file with
  fields and the key field is returned by \<^verbatim>\<open>verify_shapes\<close> exactly when
  \<^verbatim>\<open>verify_key_field\<close> counts a valid row, is put on \<^verbatim>\<open>dud_list\<close> when it counts none, has
  both counts logged when it counts rows of both kinds, and stays in the folder.
\<close>

lemma verify_shapes_by_counted_rows:
  assumes "item \<in> set (fst (create_list_of_shapes_to_verify w))"
    and "file_table w item = Some t"
    and "field_names t \<noteq> []"
    and "shape_key_field s \<in> set (field_names t)"
  shows "\<exists>dud_list good_list w'.
           verify_files s (shape_key_field s) w = (Inr (dud_list, good_list), w')
         \<and> fst (verify_shapes s (shape_key_field s) w) = Inr good_list
         \<and> (item \<in> set good_list \<longleftrightarrow> 0 < counted_valid (shape_key_field s) t)
         \<and> (counted_valid (shape_key_field s) t = 0 \<longrightarrow> item \<in> set dud_list)
         \<and> (0 < counted_valid (shape_key_field s) t \<and> 0 < counted_invalid (shape_key_field s) t \<longrightarrow>
              report_mixed item (counted_valid (shape_key_field s) t)
                (counted_invalid (shape_key_field s) t) \<in> set (log_lines w'))
         \<and> shape_dir (snd (verify_shapes s (shape_key_field s) w)) = shape_dir w"
proof -
  let ?k = "shape_key_field s"
  obtain input_list w0 where c: "create_list_of_shapes_to_verify w = (input_list, w0)"
    by (cases "create_list_of_shapes_to_verify w")
  have l0: "logged w w0" using create_list_result(2) [of w] c by simp
  have i: "item \<in> set input_list" using assms(1) c by simp
  have ft: "file_table w0 item = Some t" using assms(2) l0 by (simp add: file_table_logged)
  from verify_loop_result [of s input_list "[]" "[]" w0] obtain w1 where
    h: "verify_loop s ?k input_list ([], []) w0 =
         (Inr (filter (rejected s w0) input_list, filter (accepted s w0) input_list), w1)"
    and l1: "logged w0 w1" by auto
  let ?dud = "filter (rejected s w0) input_list" and ?good = "filter (accepted s w0) input_list"
  have vf: "verify_files s ?k w = (Inr (?dud, ?good), w1)"
    using c h by (simp add: verify_files_def)
  have acc: "accepted s w0 item = (0 < counted_valid ?k t)"
    using ft assms(3,4) by (simp add: accepted_def)
  have rej: "rejected s w0 item = (counted_valid ?k t = 0)"
    using ft assms(3,4) by (simp add: rejected_def)
  have rep: "0 < counted_valid ?k t \<and> 0 < counted_invalid ?k t \<longrightarrow>
      report_mixed item (counted_valid ?k t) (counted_invalid ?k t) \<in> set (log_lines w1)"
    using verify_loop_reports [OF ft assms(3,4) _ _ i, of "([], [])"] h by auto
  have dd: "logged w1 (del_duds ds w1)" for ds
  proof (induction ds arbitrary: w1)
    case Nil show ?case by (simp add: logged_refl)
  next
    case (Cons d ds)
    show ?case using logged_trans [OF logged_message Cons] by simp
  qed
  have "logged w1 (snd (verify_shapes s ?k w))"
    using vf dd by (simp add: verify_shapes_def logged_refl)
  then have "logged w (snd (verify_shapes s ?k w))"
    using l0 l1 logged_trans by blast
  then have sd: "shape_dir (snd (verify_shapes s ?k w)) = shape_dir w"
    by (simp add: logged_fields)
  have vs: "fst (verify_shapes s ?k w) = Inr ?good" using vf by (simp add: verify_shapes_def)
  show ?thesis using vf vs acc rej rep sd i by auto
qed

text \<open>
  The file with three keys and two blank keys: it is accepted, with the counts 3 and 2
  logged, and stays in the folder.
\<close>

lemma five_row_file_kept:
  "''X.shp'' \<in> set (fst (create_list_of_shapes_to_verify five_row_world))
   \<and> file_table five_row_world ''X.shp'' = Some five_rows
   \<and> field_names five_rows \<noteq> []
   \<and> shape_key_field AcqDisp \<in> set (field_names five_rows)
   \<and> counted_valid ''REFVAL'' five_rows = 3 \<and> counted_invalid ''REFVAL'' five_rows = 2
   \<and> (\<exists>dud_list good_list w'.
         verify_files AcqDisp ''REFVAL'' five_row_world = (Inr (dud_list, good_list), w')
       \<and> fst (verify_shapes AcqDisp ''REFVAL'' five_row_world) = Inr good_list
       \<and> ''X.shp'' \<in> set good_list
       \<and> report_mixed ''X.shp'' 3 2 \<in> set (log_lines w'))
   \<and> shape_dir (snd (verify_shapes AcqDisp ''REFVAL'' five_row_world)) = shape_dir five_row_world"
proof -
  have a: "''X.shp'' \<in> set (fst (create_list_of_shapes_to_verify five_row_world))"
    by (simp add: create_list_result five_row_world_def concrete_defs)
  have b: "file_table five_row_world ''X.shp'' = Some five_rows"
    by (simp add: five_row_world_def concrete_defs)
  have c: "field_names five_rows \<noteq> []" by (simp add: five_rows_def keyed_table_def)
  have d: "shape_key_field AcqDisp \<in> set (field_names five_rows)"
    by (simp add: five_rows_def keyed_table_def AcqDisp_def)
  have k: "shape_key_field AcqDisp = ''REFVAL''" by (simp add: AcqDisp_def)
  have v: "counted_valid ''REFVAL'' five_rows = 3" by (simp add: five_rows_def concrete_defs)
  have i: "counted_invalid ''REFVAL'' five_rows = 2" by (simp add: five_rows_def concrete_defs)
  from verify_shapes_by_counted_rows [OF a b c d] a b c d v i show ?thesis
    unfolding k v i by auto
qed

text \<open>
  Claim C7 (whole-file acceptance rule): a file is to be placed in the verified list if and
  only if it has at least one valid row, a valid row being one whose key is longer than one
  character after trimming; a file without a valid row is to go to the dud list and to be kept
  out of the merge. On a file whose two keys are blanks only, no row is valid, yet
  \<^verbatim>\<open>verify_key_field\<close> counts both as valid (it tests the untrimmed length, as shown for C6):
  the dud list stays empty and \<^verbatim>\<open>verify_shapes\<close> returns the file, logged as verified with 2
  valid shapes. The rest of the rule holds on the count the Verifier makes
  (\<open>verify_shapes_by_counted_rows\<close>): mixed files are kept with both counts logged, and no file
  is deleted.
\<close>

theorem blank_keys_file_verified:
  "trimmed_valid_count ''REFVAL'' blank_keys = 0
   \<and> verify_files AcqDisp ''REFVAL'' blank_keys_world
       = (Inr ([], [''X.shp'']),
          blank_keys_world\<lparr>log_lines := [''Completed verifying 'X.shp' with 2 valid shape(s)'']\<rparr>)
   \<and> verify_shapes AcqDisp ''REFVAL'' blank_keys_world
       = (Inr [''X.shp''],
          blank_keys_world\<lparr>log_lines := [''Completed verifying 'X.shp' with 2 valid shape(s)'']\<rparr>)"
proof -
  have t: "trimmed_valid_count ''REFVAL'' blank_keys = 0"
    by (simp add: trimmed_valid_count_def blank_keys_def keyed_table_def attr_row_def strip_def
        isspace_def)
  have f: "verify_files AcqDisp ''REFVAL'' blank_keys_world
       = (Inr ([], [''X.shp'']),
          blank_keys_world\<lparr>log_lines := [''Completed verifying 'X.shp' with 2 valid shape(s)'']\<rparr>)"
    by (simp add: verify_files_def create_list_of_shapes_to_verify_def has_lock_file_def
        verify_item_def ListFields_shape_def verify_key_field_def write_file_def message_def
        blank_keys_world_def blank_keys_def quoted_def str_nat.simps digit_char_def
        fun_upd_idem_iff Let_def concrete_defs)
  from t f show ?thesis by (simp add: verify_shapes_def)
qed

text \<open>The input of that run: both keys are empty once trimmed.\<close>

theorem blank_keys_file_verified_witness:
  "file_table blank_keys_world ''X.shp'' = Some blank_keys
   \<and> map (\<lambda>r. strip (r ''REFVAL'')) (rows blank_keys) = ['''', '''']
   \<and> trimmed_valid_count ''REFVAL'' blank_keys = 0
   \<and> fst (verify_shapes AcqDisp ''REFVAL'' blank_keys_world) = Inr [''X.shp'']"
proof -
  have a: "file_table blank_keys_world ''X.shp'' = Some blank_keys"
    by (simp add: blank_keys_world_def concrete_defs)
  have b: "map (\<lambda>r. strip (r ''REFVAL'')) (rows blank_keys) = ['''', '''']"
    by (simp add: blank_keys_def keyed_table_def attr_row_def strip_def isspace_def)
  from blank_keys_file_verified
  have t: "trimmed_valid_count ''REFVAL'' blank_keys = 0"
    and e: "verify_shapes AcqDisp ''REFVAL'' blank_keys_world
       = (Inr [''X.shp''],
          blank_keys_world\<lparr>log_lines := [''Completed verifying 'X.shp' with 2 valid shape(s)'']\<rparr>)"
    by blast+
  have "fst (verify_shapes AcqDisp ''REFVAL'' blank_keys_world) = Inr [''X.shp'']"
    by (simp only: e fst_conv)
  with a b t show ?thesis by blast
qed

lemma verify_shapes_good_list:
  "\<exists>w'. verify_shapes s (shape_key_field s) w =
          (Inr (filter (accepted s w) (filter (eligible w) (listdir w))), w')"
proof -
  obtain input_list w0 where c: "create_list_of_shapes_to_verify w = (input_list, w0)"
    by (cases "create_list_of_shapes_to_verify w")
  have l0: "logged w w0" using create_list_result(2) [of w] c by simp
  have il: "input_list = filter (eligible w) (listdir w)" using create_list_result(1) [of w] c by simp
  from verify_loop_result [of s input_list "[]" "[]" w0] obtain w1 where
    h: "verify_loop s (shape_key_field s) input_list ([], []) w0 =
         (Inr (filter (rejected s w0) input_list, filter (accepted s w0) input_list), w1)"
    by auto
  show ?thesis
    using c h il accepted_logged [OF l0, of s] by (simp add: verify_shapes_def verify_files_def)
qed

text \<open>
  Claim C10 (the assertion of \<^verbatim>\<open>rename_shape\<close>): \<^verbatim>\<open>verify_shapes\<close> returns a list, every item
  of which is in the list of \<^verbatim>\<open>create_list_of_shapes_to_verify\<close>, ends with \<^verbatim>\<open>.shp\<close> and does
  not start with \<^verbatim>\<open>__\<close>; so \<^verbatim>\<open>rename_shape\<close>, called on it by \<^verbatim>\<open>finally_rename_shapes\<close>, does
  not raise \<^verbatim>\<open>AssertionError\<close>.
\<close>

theorem rename_assertion_never_fires:
  "\<exists>good_list w'.
      verify_shapes s (shape_key_field s) w = (Inr good_list, w')
    \<and> set good_list \<subseteq> set (fst (create_list_of_shapes_to_verify w))
    \<and> (\<forall>item \<in> set good_list.
          endswith item ''.shp'' \<and> \<not> startswith item ''__''
        \<and> fst (rename_shape s item w') \<noteq> Inl AssertionError)"
proof -
  from verify_shapes_good_list [of s w] obtain w' where
    h: "verify_shapes s (shape_key_field s) w =
          (Inr (filter (accepted s w) (filter (eligible w) (listdir w))), w')" by blast
  have "endswith item ''.shp'' \<and> \<not> startswith item ''__''
        \<and> fst (rename_shape s item w') \<noteq> Inl AssertionError"
    if "item \<in> set (filter (accepted s w) (filter (eligible w) (listdir w)))" for item
  proof -
    from that have "eligible w item" by simp
    then have e: "endswith item ''.shp'' \<and> \<not> startswith item ''__''" by (simp add: eligible_def)
    then show ?thesis by (simp add: rename_shape_def)
  qed
  with h show ?thesis by (auto simp: create_list_result(1))
qed

text \<open>A run in which the verified list is not empty.\<close>

theorem rename_assertion_never_fires_witness:
  "fst (verify_shapes AcqDisp ''REFVAL'' five_row_world) = Inr [''X.shp'']
   \<and> endswith ''X.shp'' ''.shp'' \<and> \<not> startswith ''X.shp'' ''__''
   \<and> fst (rename_shape AcqDisp ''X.shp'' (snd (verify_shapes AcqDisp ''REFVAL'' five_row_world)))
       \<noteq> Inl AssertionError"
proof -
  have k: "shape_key_field AcqDisp = ''REFVAL''" by (simp add: AcqDisp_def)
  have g: "fst (verify_shapes AcqDisp ''REFVAL'' five_row_world) = Inr [''X.shp'']"
    using verify_shapes_good_list [of AcqDisp five_row_world]
    by (auto simp: k accepted_def five_row_world_def five_rows_def concrete_defs)
  from rename_assertion_never_fires [of AcqDisp five_row_world] g show ?thesis
    unfolding k by auto
qed

section \<open>Properties of retirement\<close>

lemma retire_frame_trans: "retire_frame w w1 \<Longrightarrow> retire_frame w1 w2 \<Longrightarrow> retire_frame w w2"
  by (auto simp: retire_frame_def)

lemma expired_frame: "retire_frame w w' \<Longrightarrow> expired w' = expired w"
  by (simp add: retire_frame_def expired_def date_fromtimestamp_def fun_eq_iff)

lemma map_of_distinct_iff:
  "distinct (map fst es) \<Longrightarrow> (map_of es n = Some f) = ((n, f) \<in> set es)"
  by (metis map_of_is_SomeI map_of_SomeD)

text \<open>
  The loop over a listing without repeated names, all of them in the folder: it raises nothing,
  removes exactly the files that pass the test and whose deletion succeeds, and logs each
  deletion that fails.
\<close>

lemma retire_loop_result:
  assumes "distinct items" and "distinct (map fst (shape_dir w))"
    and "set items \<subseteq> fst ` set (shape_dir w)"
  shows "\<exists>w'. retire_loop today items w = (Inr (), w')
           \<and> shape_dir w' =
               filter (\<lambda>(n, f). \<not> (n \<in> set items \<and> expired w today n f \<and> delete_error w n = None))
                 (shape_dir w)
           \<and> retire_frame w w'
           \<and> (\<forall>n f m. n \<in> set items \<and> (n, f) \<in> set (shape_dir w) \<and> expired w today n f
                  \<and> delete_error w n = Some m
                \<longrightarrow> delete_failure_line w today n f m \<in> set (log_lines w'))"
  using assms
proof (induction items arbitrary: w)
  case Nil
  show ?case by (simp add: retire_frame_def)
next
  case (Cons item items)
  let ?P = "\<lambda>its v. (\<lambda>(n, f). \<not> (n \<in> set its \<and> expired v today n f \<and> delete_error v n = None))"
  let ?L = "\<lambda>its v v'. (\<forall>n f m. n \<in> set its \<and> (n, f) \<in> set (shape_dir v) \<and> expired v today n f
                  \<and> delete_error v n = Some m
                \<longrightarrow> delete_failure_line v today n f m \<in> set (log_lines v'))"
  have d: "distinct items" and ni: "item \<notin> set items" using Cons.prems(1) by simp_all
  have sub: "set items \<subseteq> fst ` set (shape_dir w)" using Cons.prems(3) by simp
  have "item \<in> fst ` set (shape_dir w)" using Cons.prems(3) by simp
  then have "map_of (shape_dir w) item \<noteq> None" by (simp add: map_of_eq_None_iff)
  then obtain f where f: "map_of (shape_dir w) item = Some f" by blast
  have mem: "(n, g) \<in> set (shape_dir w) \<Longrightarrow> n = item \<Longrightarrow> g = f" for n g
    using f Cons.prems(2) by (simp add: map_of_distinct_iff)
  show ?case
  proof (cases "expired w today item f")
    case False
    from Cons.IH [OF d Cons.prems(2) sub] obtain w' where
      h: "retire_loop today items w = (Inr (), w')"
      and s: "shape_dir w' = filter (?P items w) (shape_dir w)"
      and fr: "retire_frame w w'" and lg: "?L items w w'" by blast
    have r: "retire_loop today (item # items) w = (Inr (), w')"
      using False f h by (auto simp: expired_def Let_def)
    have "filter (?P (item # items) w) (shape_dir w) = filter (?P items w) (shape_dir w)"
      using False mem by (intro filter_cong) auto
    moreover have "?L (item # items) w w'" using lg False mem by auto
    ultimately show ?thesis using r s fr by auto
  next
    case True
    let ?age = "today - date_fromtimestamp w (mtime f)"
    have name: "startswith item ''__'' \<and> endswith item ''.shp''" and age: "30 \<le> ?age"
      using True by (simp_all add: expired_def)
    show ?thesis
    proof (cases "delete_error w item")
      case (Some m)
      let ?w1 = "message (delete_failure_line w today item f m) w"
      have fr1: "retire_frame w ?w1" by (auto simp: retire_frame_def message_def)
      have sd1: "shape_dir ?w1 = shape_dir w" by (simp add: message_def)
      have de1: "delete_error ?w1 = delete_error w" by (simp add: message_def)
      from Cons.IH [of ?w1] d Cons.prems(2) sub sd1 obtain w' where
        h: "retire_loop today items ?w1 = (Inr (), w')"
        and s: "shape_dir w' = filter (?P items ?w1) (shape_dir ?w1)"
        and fr: "retire_frame ?w1 w'" and lg: "?L items ?w1 w'" by auto
      have r: "retire_loop today (item # items) w = (Inr (), w')"
        using name age f Some h
        by (simp add: Let_def Delete_shape_def delete_failure_line_def)
      have e1: "expired ?w1 = expired w" by (rule expired_frame [OF fr1])
      have dl1: "delete_failure_line ?w1 = delete_failure_line w"
        by (simp add: delete_failure_line_def date_fromtimestamp_def message_def fun_eq_iff)
      have "filter (?P (item # items) w) (shape_dir w) = filter (?P items w) (shape_dir w)"
        using Some by (intro filter_cong) auto
      then have s': "shape_dir w' = filter (?P (item # items) w) (shape_dir w)"
        using s sd1 de1 e1 by simp
      have here: "delete_failure_line w today item f m \<in> set (log_lines w')"
        using fr by (auto simp: retire_frame_def message_def)
      have "?L (item # items) w w'"
        using lg here mem Some unfolding e1 dl1 sd1 de1 by auto
      with r s' retire_frame_trans [OF fr1 fr] show ?thesis by blast
    next
      case None
      let ?w0 = "w\<lparr>shape_dir := filter (\<lambda>(n, f). n \<noteq> item) (shape_dir w)\<rparr>"
      let ?w1 = "message (item @ '' deleted as '' @ str_int ?age @ '' days old'') ?w0"
      have fr1: "retire_frame w ?w1" by (auto simp: retire_frame_def message_def)
      have sd1: "shape_dir ?w1 = filter (\<lambda>(n, f). n \<noteq> item) (shape_dir w)"
        by (simp add: message_def)
      have de1: "delete_error ?w1 = delete_error w" by (simp add: message_def)
      have dist1: "distinct (map fst (shape_dir ?w1))"
        unfolding sd1 using Cons.prems(2) by (simp add: distinct_map_filter)
      have sub1: "set items \<subseteq> fst ` set (shape_dir ?w1)"
        unfolding sd1 using sub ni by force
      from Cons.IH [OF d dist1 sub1] obtain w' where
        h: "retire_loop today items ?w1 = (Inr (), w')"
        and s: "shape_dir w' = filter (?P items ?w1) (shape_dir ?w1)"
        and fr: "retire_frame ?w1 w'" and lg: "?L items ?w1 w'" by blast
      have r: "retire_loop today (item # items) w = (Inr (), w')"
        using name age f None h by (simp add: Let_def Delete_shape_def)
      have e1: "expired ?w1 = expired w" by (rule expired_frame [OF fr1])
      have dl1: "delete_failure_line ?w1 = delete_failure_line w"
        by (simp add: delete_failure_line_def date_fromtimestamp_def message_def fun_eq_iff)
      have "filter (?P items w) (filter (\<lambda>(n, f). n \<noteq> item) (shape_dir w))
            = filter (?P (item # items) w) (shape_dir w)"
        unfolding filter_filter using True None mem by (intro filter_cong) auto
      then have s': "shape_dir w' = filter (?P (item # items) w) (shape_dir w)"
        using s unfolding sd1 de1 e1 by simp
      have "?L (item # items) w w'"
        using lg None ni unfolding e1 dl1 sd1 de1 by auto
      with r s' retire_frame_trans [OF fr1 fr] show ?thesis by blast
    qed
  qed
qed

text \<open>A file modified a whole number of days ago is that many calendar days old.\<close>

lemma whole_days_age:
  assumes "clock w - ts = d * 86400" and "utc_offset w (clock w) = utc_offset w ts"
  shows "date_today w - date_fromtimestamp w ts = d"
proof -
  have "clock w + utc_offset w (clock w) = (ts + utc_offset w ts) + d * 86400"
    using assms by simp
  then have "(clock w + utc_offset w (clock w)) div 86400 = (ts + utc_offset w ts) div 86400 + d"
    by simp
  then show ?thesis by (simp add: date_today_def date_fromtimestamp_def)
qed

lemma thirty_local_days:
  assumes "30 * 86400 \<le> (clock w + utc_offset w (clock w)) - (ts + utc_offset w ts)"
  shows "30 \<le> date_today w - date_fromtimestamp w ts"
proof -
  have "(ts + utc_offset w ts) + 30 * 86400 \<le> clock w + utc_offset w (clock w)"
    using assms by simp
  then have "((ts + utc_offset w ts) + 30 * 86400) div 86400
               \<le> (clock w + utc_offset w (clock w)) div 86400"
    by (rule zdiv_mono1) simp
  then show ?thesis by (simp add: date_today_def date_fromtimestamp_def)
qed

lemma retire_late_world:
  "retire_old_files late_world =
     (Inr (), late_world\<lparr>shape_dir := [], log_lines := [''__X.shp deleted as 30 days old'']\<rparr>)"
  by (simp add: retire_old_files_def late_world_def bare_world_def listdir_def date_today_def
      date_fromtimestamp_def startswith_def endswith_def Delete_shape_def message_def Let_def
      str_int_def str_nat.simps digit_char_def)

lemma retire_summer_time_world:
  "retire_old_files summer_time_world =
     (Inr (), summer_time_world\<lparr>shape_dir := [],
                log_lines := [''__X.shp deleted as 30 days old'']\<rparr>)"
  by (simp add: retire_old_files_def summer_time_world_def bare_world_def listdir_def date_today_def
      date_fromtimestamp_def startswith_def endswith_def Delete_shape_def message_def Let_def
      str_int_def str_nat.simps digit_char_def)

text \<open>
  Claim C9 (retirement rule) as it is stated, with the age taken from the last-modified
  timestamp: a processed file is deleted if and only if that timestamp is at least 30 days old,
  and one modified 29 days ago is retained. \<^verbatim>\<open>retire_old_files\<close> subtracts local calendar
  dates. A file modified one second before midnight is deleted by a run at midnight 30 days
  later, at the age of 29 days and one second; and a file modified exactly 29 days before the
  run is deleted when the clocks have been moved forward in between and the run falls in the
  first hour of a day.
\<close>

theorem retirement_by_timestamp_counterexample:
  "\<not> ((''__X.shp'' \<notin> set (listdir (snd (retire_old_files late_world)))) \<longleftrightarrow>
       (startswith ''__X.shp'' ''__'' \<and> endswith ''__X.shp'' ''.shp''
        \<and> 30 * 86400 \<le> clock late_world - 86399))
   \<and> clock summer_time_world - 1552260600 = 29 * 86400
   \<and> ''__X.shp'' \<notin> set (listdir (snd (retire_old_files summer_time_world)))"
proof -
  have "\<not> ((''__X.shp'' \<notin> set (listdir (snd (retire_old_files late_world)))) \<longleftrightarrow>
       (startswith ''__X.shp'' ''__'' \<and> endswith ''__X.shp'' ''.shp''
        \<and> 30 * 86400 \<le> clock late_world - 86399))"
    by (simp add: retire_late_world listdir_def) (simp add: late_world_def bare_world_def)
  moreover have "clock summer_time_world - 1552260600 = 29 * 86400"
    by (simp add: summer_time_world_def bare_world_def)
  moreover have "''__X.shp'' \<notin> set (listdir (snd (retire_old_files summer_time_world)))"
    by (simp add: retire_summer_time_world listdir_def)
  ultimately show ?thesis by blast
qed

text \<open>
  Claim C9, amended: for every file of an input folder, \<^verbatim>\<open>retire_old_files\<close> returns without
  error, and the file is gone afterwards if and only if its name starts with \<^verbatim>\<open>__\<close>, ends with
  \<^verbatim>\<open>.shp\<close>, the local calendar date of its last modification is at least 30 days before
  today's local date, and its deletion does not fail; a file that stays is unchanged; a
  deletion that fails is logged; a processed file last modified exactly 31 days ago is deleted
  (the local offsets at the two times differing by no more than a day), and a file last
  modified exactly 29 days ago is retained when the same offset from UTC is in force at both
  times; the geodatabase is not touched.
\<close>

theorem retirement_rule:
  assumes "distinct (listdir w)" and "(n, f) \<in> set (shape_dir w)"
  shows "\<exists>w'. retire_old_files w = (Inr (), w')
     \<and> (n \<notin> set (listdir w') \<longleftrightarrow>
          startswith n ''__'' \<and> endswith n ''.shp''
          \<and> 30 \<le> date_today w - date_fromtimestamp w (mtime f) \<and> delete_error w n = None)
     \<and> (n \<in> set (listdir w') \<longrightarrow> (n, f) \<in> set (shape_dir w'))
     \<and> (\<forall>m. startswith n ''__'' \<and> endswith n ''.shp''
            \<and> 30 \<le> date_today w - date_fromtimestamp w (mtime f) \<and> delete_error w n = Some m
          \<longrightarrow> delete_failure_line w (date_today w) n f m \<in> set (log_lines w'))
     \<and> (startswith n ''__'' \<and> endswith n ''.shp'' \<and> delete_error w n = None
          \<and> clock w - mtime f = 31 * 86400
          \<and> utc_offset w (mtime f) - utc_offset w (clock w) \<le> 86400 \<longrightarrow> n \<notin> set (listdir w'))
     \<and> (clock w - mtime f = 29 * 86400 \<and> utc_offset w (clock w) = utc_offset w (mtime f)
          \<longrightarrow> n \<in> set (listdir w'))
     \<and> gdb w' = gdb w"
proof -
  let ?today = "date_today w"
  let ?gone = "\<lambda>n f. startswith n ''__'' \<and> endswith n ''.shp''
          \<and> 30 \<le> ?today - date_fromtimestamp w (mtime f) \<and> delete_error w n = None"
  have dist: "distinct (map fst (shape_dir w))" using assms(1) by (simp add: listdir_def)
  have sub: "set (listdir w) \<subseteq> fst ` set (shape_dir w)" by (simp add: listdir_def)
  have nl: "n \<in> set (listdir w)" using assms(2) by (force simp: listdir_def)
  from retire_loop_result [OF assms(1) dist sub, of ?today] obtain w' where
    r: "retire_loop ?today (listdir w) w = (Inr (), w')"
    and s: "shape_dir w' =
        filter (\<lambda>(n, f). \<not> (n \<in> set (listdir w) \<and> expired w ?today n f \<and> delete_error w n = None))
          (shape_dir w)"
    and fr: "retire_frame w w'"
    and lg: "\<forall>n f m. n \<in> set (listdir w) \<and> (n, f) \<in> set (shape_dir w) \<and> expired w ?today n f
                  \<and> delete_error w n = Some m
                \<longrightarrow> delete_failure_line w ?today n f m \<in> set (log_lines w')"
    by blast
  have only: "(n, g) \<in> set (shape_dir w) \<Longrightarrow> g = f" for g
    using assms(2) dist by (metis map_of_distinct_iff option.inject)
  have kept: "(n, f) \<in> set (shape_dir w') \<longleftrightarrow> \<not> ?gone n f"
    using s assms(2) nl by (auto simp: expired_def)
  have "n \<in> set (listdir w') \<longleftrightarrow> (n, f) \<in> set (shape_dir w')"
  proof
    assume "n \<in> set (listdir w')"
    then obtain g where g: "(n, g) \<in> set (shape_dir w')" by (auto simp: listdir_def)
    then have "(n, g) \<in> set (shape_dir w)" using s by simp
    with only g show "(n, f) \<in> set (shape_dir w')" by simp
  next
    assume "(n, f) \<in> set (shape_dir w')"
    then show "n \<in> set (listdir w')" by (force simp: listdir_def)
  qed
  with kept have iff: "n \<notin> set (listdir w') \<longleftrightarrow> ?gone n f"
    and stays: "n \<in> set (listdir w') \<longrightarrow> (n, f) \<in> set (shape_dir w')" by blast+
  have fail: "\<forall>m. startswith n ''__'' \<and> endswith n ''.shp''
            \<and> 30 \<le> ?today - date_fromtimestamp w (mtime f) \<and> delete_error w n = Some m
          \<longrightarrow> delete_failure_line w ?today n f m \<in> set (log_lines w')"
    using lg nl assms(2) by (simp add: expired_def)
  have d31: "clock w - mtime f = 31 * 86400
        \<Longrightarrow> utc_offset w (mtime f) - utc_offset w (clock w) \<le> 86400
        \<Longrightarrow> 30 \<le> ?today - date_fromtimestamp w (mtime f)"
    by (rule thirty_local_days) simp
  have d29: "clock w - mtime f = 29 * 86400 \<Longrightarrow> utc_offset w (clock w) = utc_offset w (mtime f)
        \<Longrightarrow> ?today - date_fromtimestamp w (mtime f) = 29"
    using whole_days_age [of w "mtime f" 29] by simp
  have old: "startswith n ''__'' \<and> endswith n ''.shp'' \<and> delete_error w n = None
          \<and> clock w - mtime f = 31 * 86400
          \<and> utc_offset w (mtime f) - utc_offset w (clock w) \<le> 86400 \<longrightarrow> n \<notin> set (listdir w')"
    using iff d31 by blast
  have new: "clock w - mtime f = 29 * 86400 \<and> utc_offset w (clock w) = utc_offset w (mtime f)
          \<longrightarrow> n \<in> set (listdir w')"
    using iff d29 by auto
  have g: "gdb w' = gdb w" using fr by (simp add: retire_frame_def)
  have "retire_old_files w = (Inr (), w')" using r by (simp add: retire_old_files_def)
  with iff stays fail old new g show ?thesis by blast
qed

text \<open>The folder with a file of 31 days and one of 29 days: the first is deleted, the second stays.\<close>

theorem retirement_rule_witness:
  "distinct (listdir month_world)
   \<and> (''__old.shp'', \<lparr>mtime = 69 * 86400 + 500, content = None\<rparr>) \<in> set (shape_dir month_world)
   \<and> (''__new.shp'', \<lparr>mtime = 71 * 86400 + 500, content = None\<rparr>) \<in> set (shape_dir month_world)
   \<and> clock month_world - (69 * 86400 + 500) = 31 * 86400
   \<and> clock month_world - (71 * 86400 + 500) = 29 * 86400
   \<and> fst (retire_old_files month_world) = Inr ()
   \<and> ''__old.shp'' \<notin> set (listdir (snd (retire_old_files month_world)))
   \<and> ''__new.shp'' \<in> set (listdir (snd (retire_old_files month_world)))"
proof -
  have a: "distinct (listdir month_world)"
    by (simp add: month_world_def bare_world_def listdir_def)
  have b: "(''__old.shp'', \<lparr>mtime = 69 * 86400 + 500, content = None\<rparr>) \<in> set (shape_dir month_world)"
    and b': "(''__new.shp'', \<lparr>mtime = 71 * 86400 + 500, content = None\<rparr>) \<in> set (shape_dir month_world)"
    by (simp_all add: month_world_def bare_world_def)
  have c: "clock month_world - (69 * 86400 + 500) = 31 * 86400"
    and c': "clock month_world - (71 * 86400 + 500) = 29 * 86400"
    by (simp_all add: month_world_def bare_world_def)
  have d: "startswith ''__old.shp'' ''__'' \<and> endswith ''__old.shp'' ''.shp''
           \<and> delete_error month_world ''__old.shp'' = None"
    by (simp add: month_world_def bare_world_def startswith_def endswith_def)
  have o: "utc_offset month_world = (\<lambda>ts. 0)" by (simp add: month_world_def bare_world_def)
  from retirement_rule [OF a b] c d
  have old: "fst (retire_old_files month_world) = Inr ()
     \<and> ''__old.shp'' \<notin> set (listdir (snd (retire_old_files month_world)))"
    by (auto simp: o)
  from retirement_rule [OF a b'] c'
  have new: "''__new.shp'' \<in> set (listdir (snd (retire_old_files month_world)))"
    by (auto simp: o)
  from a b b' c c' old new show ?thesis by blast
qed

section \<open>Properties of the Reconciler\<close>

lemma process_updates_logged: "logged w (snd (process_updates s w))"
  by (auto simp: process_updates_def Let_def logged_message logged_then_message
      split: sum.splits)

lemma process_updates_leaves_gdb: "gdb (snd (process_updates s w)) = gdb w"
  using process_updates_logged [of w s] by (simp add: logged_fields)

text \<open>
  \<^verbatim>\<open>process_updates\<close> writes log lines and nothing else, whatever its outcome; and it returns
  without raising only on a candidate feature class without rows.
\<close>

lemma process_updates_success:
  assumes "process_updates s w = (Inr u, w')"
  shows "candidate_keys s w = []
       \<and> w' = message ''No updates to process'' (message ''Processing Updates'' w)"
proof -
  obtain t where t: "gdb w (poly_fc s) = Some t"
    using assms
    by (cases "gdb w (poly_fc s)")
       (auto simp: process_updates_def Let_def GetCount_management_def message_def)
  have "rows t = [] \<and> w' = message ''No updates to process'' (message ''Processing Updates'' w)"
    using assms t
    by (auto simp: process_updates_def Let_def GetCount_management_def Exists_def message_def
        split: if_splits sum.splits)
  with t show ?thesis by (simp add: candidate_keys_def)
qed

lemma process_updates_no_rows:
  assumes "gdb w (poly_fc s) = Some t" and "rows t = []"
  shows "process_updates s w =
           (Inr (), message ''No updates to process'' (message ''Processing Updates'' w))"
  using assms
  by (simp add: process_updates_def Let_def GetCount_management_def Exists_def message_def)

lemma process_updates_idle:
  "process_updates AcqDisp idle_world =
     (Inr (), idle_world\<lparr>log_lines := [''Processing Updates'', ''No updates to process'']\<rparr>)"
  by (simp add: process_updates_def Let_def GetCount_management_def Exists_def message_def
      idle_world_def bare_world_def keyed_table_def AcqDisp_def poly_fc_def)

text \<open>On a candidate feature class with rows, \<^verbatim>\<open>process_updates\<close> raises after its first log
  line.\<close>

lemma process_updates_raises:
  assumes "gdb w (poly_fc s) = Some poly" and "rows poly \<noteq> []"
  shows "\<exists>e. process_updates s w = (Inl e, message ''Processing Updates'' w)"
  using assms
  by (cases "create_master_list s (message ''Processing Updates'' w)")
     (auto simp: process_updates_def Let_def GetCount_management_def Exists_def message_def)

lemmas reconciler_defs = process_updates_def GetCount_management_def Exists_def
  create_master_list_def open_cursor_def ListFields_def get_index_def delete_record_def
  Append_management_def lines_386_to_401_def message_def poly_fc_def live_fc_def quoted_def

text \<open>
  What lines 386 to 401 do on the scenario of the specification when they are started with the
  values lines 376 to 384 compute there: the row of A is deleted, the candidate rows are
  appended, and 1 new and 1 replacement are reported.
\<close>

lemma scenario_lines_386_to_401:
  "create_master_list AcqDisp scenario_world = Inr [''A'', ''B'']"
  "lines_386_to_401 AcqDisp 2 [''A'', ''B''] [''REFVAL'', ''VERSION'']
      (message ''Processing Updates'' scenario_world) =
    (Inr (), scenario_world\<lparr>gdb := (gdb scenario_world)(''Disposals_Live'' \<mapsto>
        keyed_table [(''B'', ''v1''), (''A'', ''v2''), (''C'', ''v1'')]),
      log_lines := [''Processing Updates'', ''Old value of A deleted from Disposals_Live'',
                    ''2 shapes added to live. 1 new and 1 replacements'']\<rparr>)"
  by (simp_all add: reconciler_defs scenario_world_def concrete_defs Let_def str_nat.simps
      digit_char_def)

text \<open>
  Claim C2 (reconciliation postcondition): on the live rows A:v1, B:v1 and the candidate rows
  A:v2, C:v1 the live feature class is to become A:v2, B:v1, C:v1, with 1 replacement and 1 new
  record reported. \<^verbatim>\<open>process_updates\<close> raises \<^verbatim>\<open>NameError\<close> at line 385, having logged its
  first line only; the live feature class still has the rows of A and B, and no count is
  logged.
\<close>

theorem scenario_raises_NameError:
  "process_updates AcqDisp scenario_world =
     (Inl (NameError ''global name 'poly_fc' is not defined''),
      scenario_world\<lparr>log_lines := [''Processing Updates'']\<rparr>)
   \<and> live_keys AcqDisp (snd (process_updates AcqDisp scenario_world)) = [''A'', ''B'']"
  by (simp add: reconciler_defs scenario_world_def live_keys_def concrete_defs Let_def)

text \<open>The input of that run: a candidate feature class that exists and has two rows.\<close>

theorem scenario_raises_NameError_witness:
  "Exists (poly_fc AcqDisp) scenario_world
   \<and> GetCount_management (poly_fc AcqDisp) scenario_world = Inr 2
   \<and> candidate_keys AcqDisp scenario_world = [''A'', ''C'']
   \<and> fst (process_updates AcqDisp scenario_world)
       = Inl (NameError ''global name 'poly_fc' is not defined'')
   \<and> live_keys AcqDisp (snd (process_updates AcqDisp scenario_world)) = [''A'', ''B'']"
proof -
  have a: "Exists (poly_fc AcqDisp) scenario_world
     \<and> GetCount_management (poly_fc AcqDisp) scenario_world = Inr 2
     \<and> candidate_keys AcqDisp scenario_world = [''A'', ''C'']"
    by (simp add: Exists_def GetCount_management_def candidate_keys_def poly_fc_def
        scenario_world_def concrete_defs)
  from scenario_raises_NameError
  have e: "process_updates AcqDisp scenario_world =
     (Inl (NameError ''global name 'poly_fc' is not defined''),
      scenario_world\<lparr>log_lines := [''Processing Updates'']\<rparr>)"
    and l: "live_keys AcqDisp (snd (process_updates AcqDisp scenario_world)) = [''A'', ''B'']"
    by blast+
  have "fst (process_updates AcqDisp scenario_world)
          = Inl (NameError ''global name 'poly_fc' is not defined'')"
    by (simp only: e fst_conv)
  with a l show ?thesis by blast
qed

text \<open>
  Claim C4 (no-op precondition): when the candidate feature class does not exist,
  \<^verbatim>\<open>process_updates\<close> is to log that there are no updates and to return without error.
  \<^verbatim>\<open>GetCount_management\<close> runs before the test of \<^verbatim>\<open>arcpy.Exists\<close> and raises
  \<^verbatim>\<open>ExecuteError\<close> on the missing feature class: the method leaves with that error after its
  first log line. On a candidate feature class that exists and has no rows the method does what
  the claim says (\<open>process_updates_no_rows\<close>).
\<close>

theorem missing_candidate_raises:
  "\<not> Exists (poly_fc AcqDisp) missing_candidate_world
   \<and> process_updates AcqDisp missing_candidate_world =
     (Inl (ExecuteError
        ''ERROR 000732: Input Rows: Dataset Disposals_Poly does not exist or is not supported''),
      missing_candidate_world\<lparr>log_lines := [''Processing Updates'']\<rparr>)"
  by (simp add: reconciler_defs missing_candidate_world_def concrete_defs Let_def)

text \<open>The input of that run, and its log.\<close>

theorem missing_candidate_raises_witness:
  "gdb missing_candidate_world (poly_fc AcqDisp) = None
   \<and> fst (process_updates AcqDisp missing_candidate_world)
       = Inl (ExecuteError
          ''ERROR 000732: Input Rows: Dataset Disposals_Poly does not exist or is not supported'')
   \<and> log_lines (snd (process_updates AcqDisp missing_candidate_world)) = [''Processing Updates'']"
proof -
  have a: "gdb missing_candidate_world (poly_fc AcqDisp) = None"
    by (simp add: poly_fc_def missing_candidate_world_def concrete_defs)
  from missing_candidate_raises
  have e: "process_updates AcqDisp missing_candidate_world =
     (Inl (ExecuteError
        ''ERROR 000732: Input Rows: Dataset Disposals_Poly does not exist or is not supported''),
      missing_candidate_world\<lparr>log_lines := [''Processing Updates'']\<rparr>)"
    by blast
  have "fst (process_updates AcqDisp missing_candidate_world)
       = Inl (ExecuteError
          ''ERROR 000732: Input Rows: Dataset Disposals_Poly does not exist or is not supported'')"
    and "log_lines (snd (process_updates AcqDisp missing_candidate_world))
           = [''Processing Updates'']"
    by (simp_all add: e)
  with a show ?thesis by blast
qed

text \<open>
  What lines 386 to 401 do on a candidate feature class without the key field: \<^verbatim>\<open>get_index\<close>
  logs one line marked \<^verbatim>\<open>~\<close> and returns \<^verbatim>\<open>None\<close>, \<^verbatim>\<open>row[polyindex]\<close> raises \<^verbatim>\<open>TypeError\<close>
  on the first row, and nothing is deleted or appended.
\<close>

lemma malformed_lines_386_to_401:
  "lines_386_to_401 AcqDisp 1 [''A'', ''B''] [''ESTATESREF'', ''VERSION'']
      (message ''Processing Updates'' malformed_world) =
    (Inl (TypeError ''tuple indices must be integers, not NoneType''),
     malformed_world\<lparr>log_lines := [''Processing Updates'',
       ''~ Unable to find REFVAL in Disposals_Poly. '' @ [CHR 0x0A] @ quoted ''REFVAL''
         @ '' is not in list'']\<rparr>)"
  by (simp add: reconciler_defs malformed_world_def malformed_table_def concrete_defs Let_def)

text \<open>
  Claim C5 (missing key field): for every candidate feature class with rows whose fields do
  not include the key field, the run of \<^verbatim>\<open>wrapper\<close> from \<^verbatim>\<open>process_updates\<close> on is aborted:
  \<^verbatim>\<open>process_updates\<close> raises, the \<^verbatim>\<open>except\<close> clause logs its line, and
  \<^verbatim>\<open>finally_rename_shapes\<close> is not run; the log gains the two lines shown, of which exactly
  one, the last, is marked \<^verbatim>\<open>~\<close>; and the geodatabase, hence the live feature class, and the
  input folder are as before. (What is raised is the \<^verbatim>\<open>NameError\<close> of line 385, or the error of
  \<^verbatim>\<open>create_master_list\<close> before it; \<^verbatim>\<open>get_index\<close>, which looks for the key field, is behind
  line 385.)
\<close>

theorem missing_key_field_aborts:
  assumes "gdb w (poly_fc s) = Some poly" and "rows poly \<noteq> []"
    and "shape_key_field s \<notin> set (field_names poly)"
  shows "\<exists>e. fst (process_updates s w) = Inl e
     \<and> wrapper_lines_53_to_56 s verified_shapes w
         = w\<lparr>log_lines := log_lines w @ [''Processing Updates'', abort_line s e]\<rparr>
     \<and> filter (\<lambda>line. startswith line ''~'') [''Processing Updates'', abort_line s e]
         = [abort_line s e]
     \<and> gdb (wrapper_lines_53_to_56 s verified_shapes w) = gdb w
     \<and> shape_dir (wrapper_lines_53_to_56 s verified_shapes w) = shape_dir w"
proof -
  from process_updates_raises [OF assms(1,2)] obtain e where
    e: "process_updates s w = (Inl e, message ''Processing Updates'' w)" by blast
  have w: "wrapper_lines_53_to_56 s verified_shapes w
         = w\<lparr>log_lines := log_lines w @ [''Processing Updates'', abort_line s e]\<rparr>"
    using e by (simp add: wrapper_lines_53_to_56_def message_def abort_line_def)
  have f: "filter (\<lambda>line. startswith line ''~'') [''Processing Updates'', abort_line s e]
         = [abort_line s e]"
    by (simp add: startswith_def abort_line_def)
  from e w f show ?thesis by (intro exI [of _ e]) simp
qed

text \<open>The run on the candidate feature class without \<^verbatim>\<open>REFVAL\<close>.\<close>

theorem missing_key_field_aborts_witness:
  "gdb malformed_world (poly_fc AcqDisp) = Some malformed_table
   \<and> rows malformed_table \<noteq> []
   \<and> shape_key_field AcqDisp \<notin> set (field_names malformed_table)
   \<and> (\<exists>e. wrapper_lines_53_to_56 AcqDisp [''X.shp''] malformed_world
              = malformed_world\<lparr>log_lines := [''Processing Updates'', abort_line AcqDisp e]\<rparr>)
   \<and> gdb (wrapper_lines_53_to_56 AcqDisp [''X.shp''] malformed_world) = gdb malformed_world"
proof -
  have a: "gdb malformed_world (poly_fc AcqDisp) = Some malformed_table"
    by (simp add: malformed_world_def bare_world_def poly_fc_def AcqDisp_def)
  have b: "rows malformed_table \<noteq> []" by (simp add: malformed_table_def)
  have c: "shape_key_field AcqDisp \<notin> set (field_names malformed_table)"
    by (simp add: malformed_table_def AcqDisp_def)
  have l: "log_lines malformed_world = []" by (simp add: malformed_world_def bare_world_def)
  from missing_key_field_aborts [OF a b c, of "[''X.shp'']"] a b c show ?thesis
    unfolding l by auto
qed

section \<open>Properties of the statements that delete and append\<close>

text \<open>
  \<^verbatim>\<open>delete_record\<close> on its own: it removes the live rows with the given key whose deletion does
  not fail, and leaves every row with another key, and the distinctness of the keys, as they
  were.
\<close>

lemma delete_rows_result:
  "row_delete_error w = row_delete_error w0 \<Longrightarrow>
   \<exists>w'. delete_rows s v rs w =
          (filter (\<lambda>r. \<not> (r (shape_key_field s) = v \<and> row_delete_error w0 (live_fc s) r = None)) rs,
           w')
        \<and> logged w w'"
proof (induction rs arbitrary: w)
  case Nil
  show ?case by (simp add: logged_refl)
next
  case (Cons r rs)
  have step: "\<exists>w'. delete_rows s v rs (message m w) =
          (filter (\<lambda>r. \<not> (r (shape_key_field s) = v \<and> row_delete_error w0 (live_fc s) r = None)) rs,
           w')
        \<and> logged w w'" for m
  proof -
    have "row_delete_error (message m w) = row_delete_error w0"
      using Cons.prems by (simp add: message_def)
    from Cons.IH [OF this] obtain w' where
      h: "delete_rows s v rs (message m w) =
          (filter (\<lambda>r. \<not> (r (shape_key_field s) = v \<and> row_delete_error w0 (live_fc s) r = None)) rs,
           w')"
      and l: "logged (message m w) w'" by blast
    from h logged_trans [OF logged_message l] show ?thesis by blast
  qed
  show ?case
  proof (cases "r (shape_key_field s) = v")
    case False
    with Cons.IH [OF Cons.prems] show ?thesis by auto
  next
    case True
    show ?thesis
    proof (cases "row_delete_error w0 (live_fc s) r")
      case None
      with True Cons.prems step show ?thesis by simp
    next
      case (Some m)
      from step obtain w' where
        "delete_rows s v rs
           (message (''~ Unable to delete old value of '' @ v @ '' from ''
                     @ live_fc s @ ''. '' @ [CHR 0x0A] @ m) w) =
          (filter (\<lambda>r. \<not> (r (shape_key_field s) = v \<and> row_delete_error w0 (live_fc s) r = None)) rs,
           w')"
        and "logged w w'" by blast
      with True Some Cons.prems show ?thesis by simp
    qed
  qed
qed

lemma delete_record_result:
  assumes "gdb w (live_fc s) = Some t" and "shape_key_field s \<in> set (field_names t)"
  shows "\<exists>w'. delete_record s v w = (Inr (), w')
     \<and> gdb w' = (gdb w)(live_fc s \<mapsto> t\<lparr>rows :=
         filter (\<lambda>r. \<not> (r (shape_key_field s) = v \<and> row_delete_error w (live_fc s) r = None))
           (rows t)\<rparr>)
     \<and> shape_dir w' = shape_dir w"
proof -
  from delete_rows_result [OF refl, of s v "rows t" w] obtain w1 where
    h: "delete_rows s v (rows t) w =
          (filter (\<lambda>r. \<not> (r (shape_key_field s) = v \<and> row_delete_error w (live_fc s) r = None))
             (rows t), w1)"
    and l: "logged w w1" by blast
  from assms h show ?thesis
    by (simp add: delete_record_def open_cursor_def logged_fields [OF l])
qed

lemma delete_record_frame:
  assumes "gdb w (live_fc s) = Some t" and "shape_key_field s \<in> set (field_names t)"
  shows "\<exists>t'. gdb (snd (delete_record s v w)) (live_fc s) = Some t'
     \<and> field_names t' = field_names t
     \<and> filter (\<lambda>r. r (shape_key_field s) \<noteq> v) (rows t')
         = filter (\<lambda>r. r (shape_key_field s) \<noteq> v) (rows t)
     \<and> (distinct (map (\<lambda>r. r (shape_key_field s)) (rows t))
          \<longrightarrow> distinct (map (\<lambda>r. r (shape_key_field s)) (rows t')))"
proof -
  from delete_record_result [OF assms, of v] obtain w' where
    h: "delete_record s v w = (Inr (), w')"
    and g: "gdb w' = (gdb w)(live_fc s \<mapsto> t\<lparr>rows :=
         filter (\<lambda>r. \<not> (r (shape_key_field s) = v \<and> row_delete_error w (live_fc s) r = None))
           (rows t)\<rparr>)" by blast
  have "filter (\<lambda>r. r (shape_key_field s) \<noteq> v)
          (filter (\<lambda>r. \<not> (r (shape_key_field s) = v \<and> row_delete_error w (live_fc s) r = None))
             (rows t))
        = filter (\<lambda>r. r (shape_key_field s) \<noteq> v) (rows t)"
    unfolding filter_filter by (intro filter_cong) auto
  with h g show ?thesis by (simp add: distinct_map_filter)
qed

lemma after_deletes_empty: "after_deletes s {} w = gdb w"
  by (auto simp: after_deletes_def split: option.splits)

lemma after_deletes_cong:
  "gdb w' = gdb w \<Longrightarrow> row_delete_error w' = row_delete_error w
     \<Longrightarrow> after_deletes s D w' = after_deletes s D w"
  by (auto simp: after_deletes_def split: option.splits)

lemma after_deletes_twice:
  assumes "gdb w1 = after_deletes s {v} w" and "row_delete_error w1 = row_delete_error w"
  shows "after_deletes s D w1 = after_deletes s (insert v D) w"
proof (cases "gdb w (live_fc s)")
  case None
  with assms show ?thesis by (simp add: after_deletes_def)
next
  case (Some t)
  have "filter (\<lambda>r. \<not> (r (shape_key_field s) \<in> D \<and> row_delete_error w (live_fc s) r = None))
          (filter (\<lambda>r. \<not> (r (shape_key_field s) \<in> {v} \<and> row_delete_error w (live_fc s) r = None))
             (rows t))
        = filter (\<lambda>r. \<not> (r (shape_key_field s) \<in> insert v D
                            \<and> row_delete_error w (live_fc s) r = None)) (rows t)"
    unfolding filter_filter by (intro filter_cong) auto
  with Some assms show ?thesis by (simp add: after_deletes_def)
qed

lemma delete_record_effect:
  assumes "gdb w (live_fc s) = Some t" and "shape_key_field s \<in> set (field_names t)"
  shows "\<exists>w'. delete_record s v w = (Inr (), w') \<and> gdb w' = after_deletes s {v} w
     \<and> row_delete_error w' = row_delete_error w \<and> append_error w' = append_error w"
proof -
  from delete_rows_result [OF refl, of s v "rows t" w] obtain w1 where
    h: "delete_rows s v (rows t) w =
          (filter (\<lambda>r. \<not> (r (shape_key_field s) = v \<and> row_delete_error w (live_fc s) r = None))
             (rows t), w1)"
    and l: "logged w w1" by blast
  from assms h show ?thesis
    by (simp add: delete_record_def open_cursor_def after_deletes_def logged_fields [OF l])
qed

lemma delete_record_fails:
  assumes "gdb w (live_fc s) = None
           \<or> (\<exists>t. gdb w (live_fc s) = Some t \<and> shape_key_field s \<notin> set (field_names t))"
  shows "\<exists>e. delete_record s v w = (Inl e, w)"
  using assms by (auto simp: delete_record_def open_cursor_def)

text \<open>
  The scan of the candidate rows (lines 388 to 394), with \<^verbatim>\<open>polyindex\<close> the position of the key
  field among the fields the cursor is opened on: whether it completes or stops at an error, it
  has run \<^verbatim>\<open>delete_record\<close> for some set \<open>D\<close> of candidate keys that are in \<^verbatim>\<open>check_list\<close>, and
  for all of them when it completes.
\<close>

lemma scan_rows_effect:
  assumes "i < length pn" and "pn ! i = shape_key_field s"
  shows "\<exists>res w' D. scan_rows s cl (Some i) (map (\<lambda>r. map r pn) rs) counts w = (res, w')
       \<and> D \<subseteq> (\<lambda>r. r (shape_key_field s)) ` set rs \<inter> set cl
       \<and> ((\<exists>c. res = Inr c) \<longrightarrow> D = (\<lambda>r. r (shape_key_field s)) ` set rs \<inter> set cl)
       \<and> gdb w' = after_deletes s D w
       \<and> row_delete_error w' = row_delete_error w \<and> append_error w' = append_error w"
proof (induction rs arbitrary: counts w)
  case Nil
  show ?case by (simp add: after_deletes_empty)
next
  case (Cons c rs)
  let ?k = "shape_key_field s"
  let ?K = "\<lambda>rs. (\<lambda>r. r ?k) ` set rs \<inter> set cl"
  obtain repl new where counts: "counts = (repl, new)" by (cases counts)
  show ?case
  proof (cases "c ?k \<in> set cl")
    case False
    from Cons [of "(repl, Suc new)" w] obtain res w' D where
      h: "scan_rows s cl (Some i) (map (\<lambda>r. map r pn) rs) (repl, Suc new) w = (res, w')"
      and d: "D \<subseteq> ?K rs" and ok: "(\<exists>c. res = Inr c) \<longrightarrow> D = ?K rs"
      and g: "gdb w' = after_deletes s D w"
      and f: "row_delete_error w' = row_delete_error w \<and> append_error w' = append_error w"
      by blast
    have r: "scan_rows s cl (Some i) (map (\<lambda>r. map r pn) (c # rs)) counts w = (res, w')"
      using False h assms by (simp add: counts)
    have "?K (c # rs) = ?K rs" using False by auto
    with r d ok g f show ?thesis by (intro exI [of _ res] exI [of _ w'] exI [of _ D]) simp
  next
    case True
    show ?thesis
    proof (cases "\<exists>t. gdb w (live_fc s) = Some t \<and> ?k \<in> set (field_names t)")
      case False
      then have "gdb w (live_fc s) = None
           \<or> (\<exists>t. gdb w (live_fc s) = Some t \<and> ?k \<notin> set (field_names t))"
        by (cases "gdb w (live_fc s)") auto
      from delete_record_fails [OF this, of "c ?k"] obtain e where
        e: "delete_record s (c ?k) w = (Inl e, w)" by blast
      have r: "scan_rows s cl (Some i) (map (\<lambda>r. map r pn) (c # rs)) counts w = (Inl e, w)"
        using True e assms by (simp add: counts)
      have "scan_rows s cl (Some i) (map (\<lambda>r. map r pn) (c # rs)) counts w = (Inl e, w)
         \<and> {} \<subseteq> ?K (c # rs) \<and> ((\<exists>c. Inl e = Inr c) \<longrightarrow> {} = ?K (c # rs))
         \<and> gdb w = after_deletes s {} w
         \<and> row_delete_error w = row_delete_error w \<and> append_error w = append_error w"
        using r by (simp only: after_deletes_empty) simp
      then show ?thesis by blast
    next
      case ex: True
      then obtain t where t: "gdb w (live_fc s) = Some t" "?k \<in> set (field_names t)" by blast
      from delete_record_effect [OF t, of "c ?k"] obtain w1 where
        e: "delete_record s (c ?k) w = (Inr (), w1)"
        and g1: "gdb w1 = after_deletes s {c ?k} w"
        and f1: "row_delete_error w1 = row_delete_error w" "append_error w1 = append_error w"
        by blast
      from Cons [of "(Suc repl, new)" w1] obtain res w' D where
        h: "scan_rows s cl (Some i) (map (\<lambda>r. map r pn) rs) (Suc repl, new) w1 = (res, w')"
        and d: "D \<subseteq> ?K rs" and ok: "(\<exists>c. res = Inr c) \<longrightarrow> D = ?K rs"
        and g: "gdb w' = after_deletes s D w1"
        and f: "row_delete_error w' = row_delete_error w1 \<and> append_error w' = append_error w1"
        by blast
      have r: "scan_rows s cl (Some i) (map (\<lambda>r. map r pn) (c # rs)) counts w = (res, w')"
        using True e h assms by (simp add: counts)
      have g': "gdb w' = after_deletes s (insert (c ?k) D) w"
        using g after_deletes_twice [OF g1 f1(1)] by simp
      have d': "insert (c ?k) D \<subseteq> ?K (c # rs)" using d True by auto
      have ok': "(\<exists>c. res = Inr c) \<longrightarrow> insert (c ?k) D = ?K (c # rs)" using ok True by auto
      have f': "row_delete_error w' = row_delete_error w \<and> append_error w' = append_error w"
        using f f1 by simp
      from r d' ok' g' f' show ?thesis by blast
    qed
  qed
qed

lemma index_of_Some: "index_of x ys = Some i \<Longrightarrow> i < length ys \<and> ys ! i = x"
  by (induction ys arbitrary: i) (auto split: if_splits option.splits)

lemma poly_fc_neq_live_fc: "poly_fc s \<noteq> live_fc s"
  by (simp add: poly_fc_def live_fc_def)

lemma scan_phase:
  "\<exists>res w' D. scan_rows s cl (index_of (shape_key_field s) pn) (map (\<lambda>r. map r pn) rs) counts w
                 = (res, w')
       \<and> D \<subseteq> (\<lambda>r. r (shape_key_field s)) ` set rs \<inter> set cl
       \<and> ((\<exists>c. res = Inr c) \<longrightarrow> D = (\<lambda>r. r (shape_key_field s)) ` set rs \<inter> set cl)
       \<and> gdb w' = after_deletes s D w
       \<and> row_delete_error w' = row_delete_error w \<and> append_error w' = append_error w"
proof (cases "index_of (shape_key_field s) pn")
  case (Some i)
  from index_of_Some [OF Some] scan_rows_effect [of i pn s cl rs counts w] Some
  show ?thesis by simp
next
  case None
  show ?thesis
  proof (cases rs)
    case Nil
    with None show ?thesis by (simp add: after_deletes_empty)
  next
    case (Cons c rs')
    have "scan_rows s cl None (map (\<lambda>r. map r pn) rs) counts w
            = (Inl (TypeError ''tuple indices must be integers, not NoneType''), w)"
      using Cons by (cases counts) simp
    then have "scan_rows s cl (index_of (shape_key_field s) pn) (map (\<lambda>r. map r pn) rs) counts w
                 = (Inl (TypeError ''tuple indices must be integers, not NoneType''), w)
       \<and> {} \<subseteq> (\<lambda>r. r (shape_key_field s)) ` set rs \<inter> set cl
       \<and> gdb w = after_deletes s {} w"
      using None by (simp add: after_deletes_empty)
    then show ?thesis by blast
  qed
qed

lemma get_index_effect:
  assumes "ListFields (poly_fc s) w = Inr pn"
  shows "\<exists>w1. get_index s w = (Inr (index_of (shape_key_field s) pn), w1) \<and> logged w w1"
  using assms
  by (cases "index_of (shape_key_field s) pn")
     (auto simp: get_index_def logged_refl logged_message)

lemma Append_management_effect:
  assumes "gdb w (poly_fc s) = Some a" and "gdb w (live_fc s) = Some b"
  shows "\<exists>res w'. Append_management (poly_fc s) (live_fc s) w = (res, w')
       \<and> ((\<exists>e. res = Inl e) \<longrightarrow> w' = w)
       \<and> ((\<exists>u. res = Inr u) \<longrightarrow>
             w' = w\<lparr>gdb := (gdb w)(live_fc s \<mapsto> b\<lparr>rows := rows b @ rows a\<rparr>)\<rparr>)"
  using assms by (cases "append_error w") (auto simp: Append_management_def)

text \<open>
  Lines 386 to 401, started with \<^verbatim>\<open>poly_names\<close> bound to the field names of the candidate
  feature class, which is what line 385 is written to compute: when they raise, the
  geodatabase is the one after the deletions made so far; when they complete, the deletions
  were made for every candidate key in \<^verbatim>\<open>check_list\<close> and the candidate rows were appended to
  the live rows that remained.
\<close>

lemma lines_386_to_401_effect:
  assumes "ListFields (poly_fc s) w = Inr pn"
  shows "\<exists>res w' D. lines_386_to_401 s n cl pn w = (res, w')
     \<and> D \<subseteq> set (candidate_keys s w) \<inter> set cl
     \<and> ((\<exists>e. res = Inl e) \<longrightarrow> gdb w' = after_deletes s D w)
     \<and> ((\<exists>u. res = Inr u) \<longrightarrow>
          D = set (candidate_keys s w) \<inter> set cl
          \<and> (\<exists>a b. gdb w (poly_fc s) = Some a \<and> after_deletes s D w (live_fc s) = Some b
                \<and> gdb w' = (after_deletes s D w)(live_fc s \<mapsto> b\<lparr>rows := rows b @ rows a\<rparr>)))"
proof -
  let ?k = "shape_key_field s"
  from assms obtain a where a: "gdb w (poly_fc s) = Some a" and pn: "field_names a = pn"
    by (auto simp: ListFields_def split: option.splits)
  have ck: "set (candidate_keys s w) = (\<lambda>r. r ?k) ` set (rows a)"
    using a by (simp add: candidate_keys_def)
  show ?thesis
  proof (cases "gdb w (live_fc s)")
    case None
    then have "\<exists>e. lines_386_to_401 s n cl pn w = (Inl e, w)"
      by (simp add: lines_386_to_401_def ListFields_def)
    then obtain e where "lines_386_to_401 s n cl pn w = (Inl e, w)
        \<and> {} \<subseteq> set (candidate_keys s w) \<inter> set cl \<and> gdb w = after_deletes s {} w"
      by (auto simp: after_deletes_empty)
    then show ?thesis by blast
  next
    case (Some live)
    from get_index_effect [OF assms] obtain w1 where
      gi: "get_index s w = (Inr (index_of ?k pn), w1)" and l1: "logged w w1" by blast
    have g1: "gdb w1 = gdb w" and r1: "row_delete_error w1 = row_delete_error w"
      and a1: "append_error w1 = append_error w" using l1 by (simp_all add: logged_fields)
    have oc: "open_cursor (poly_fc s) pn w1 = Inr a"
      using a pn g1 by (simp add: open_cursor_def)
    from scan_phase [of s cl pn "rows a" "(0, 0)" w1] obtain res2 w2 D where
      sc: "scan_rows s cl (index_of ?k pn) (map (\<lambda>r. map r pn) (rows a)) (0, 0) w1 = (res2, w2)"
      and d: "D \<subseteq> (\<lambda>r. r ?k) ` set (rows a) \<inter> set cl"
      and ok: "(\<exists>c. res2 = Inr c) \<longrightarrow> D = (\<lambda>r. r ?k) ` set (rows a) \<inter> set cl"
      and g2: "gdb w2 = after_deletes s D w1" by blast
    have g2': "gdb w2 = after_deletes s D w"
      using g2 after_deletes_cong [OF g1 r1] by simp
    have d': "D \<subseteq> set (candidate_keys s w) \<inter> set cl" using d ck by simp
    have head: "lines_386_to_401 s n cl pn w =
       (case res2 of
          Inl e \<Rightarrow> (Inl e, w2)
        | Inr (replacement_records, new_records) \<Rightarrow>
            (case Append_management (poly_fc s) (live_fc s) w2 of
               (Inl e, w3) \<Rightarrow>
                 (Inl e, message (''~ Unable to add new shapes to live. '' @ str_exn e) w3)
             | (Inr u, w3) \<Rightarrow>
                 (Inr (), message (str_nat n @ '' shapes added to live. ''
                                   @ str_nat new_records @ '' new and ''
                                   @ str_nat replacement_records @ '' replacements'') w3)))"
      using Some gi oc sc by (simp add: lines_386_to_401_def ListFields_def)
    show ?thesis
    proof (cases res2)
      case (Inl e)
      with head have "lines_386_to_401 s n cl pn w = (Inl e, w2)" by simp
      with d' g2' show ?thesis by blast
    next
      case (Inr c)
      obtain repl new where c: "c = (repl, new)" by (cases c)
      have D: "D = set (candidate_keys s w) \<inter> set cl" using ok Inr ck by simp
      obtain b where b: "after_deletes s D w (live_fc s) = Some b"
        using Some by (simp add: after_deletes_def)
      have a2: "gdb w2 (poly_fc s) = Some a"
        using g2' a Some poly_fc_neq_live_fc [of s] by (simp add: after_deletes_def)
      have b2: "gdb w2 (live_fc s) = Some b" using g2' b by simp
      from Append_management_effect [OF a2 b2] obtain res3 w3 where
        ap: "Append_management (poly_fc s) (live_fc s) w2 = (res3, w3)"
        and fail: "(\<exists>e. res3 = Inl e) \<longrightarrow> w3 = w2"
        and fin: "(\<exists>u. res3 = Inr u) \<longrightarrow>
             w3 = w2\<lparr>gdb := (gdb w2)(live_fc s \<mapsto> b\<lparr>rows := rows b @ rows a\<rparr>)\<rparr>" by blast
      show ?thesis
      proof (cases res3)
        case e: (Inl e)
        have "lines_386_to_401 s n cl pn w =
                (Inl e, message (''~ Unable to add new shapes to live. '' @ str_exn e) w2)"
          using head Inr c ap e fail by simp
        moreover have "gdb (message (''~ Unable to add new shapes to live. '' @ str_exn e) w2)
                         = after_deletes s D w"
          using g2' by (simp add: message_def)
        ultimately show ?thesis using d' by blast
      next
        case u: (Inr u)
        let ?w' = "message (str_nat n @ '' shapes added to live. '' @ str_nat new
                            @ '' new and '' @ str_nat repl @ '' replacements'') w3"
        have r: "lines_386_to_401 s n cl pn w = (Inr (), ?w')"
          using head Inr c ap u by simp
        have "gdb ?w' = (after_deletes s D w)(live_fc s \<mapsto> b\<lparr>rows := rows b @ rows a\<rparr>)"
          using fin u g2' by (simp add: message_def)
        with r D a b d' show ?thesis by blast
      qed
    qed
  qed
qed






text \<open>
  Claim C3 (frame condition): whatever the outcome of the statements of \<^verbatim>\<open>process_updates\<close>
  that delete and append (lines 386 to 401, for every \<^verbatim>\<open>check_list\<close> and count, started on the
  field names of the candidate feature class), the live feature class has the same fields
  afterwards, and its rows whose key value does not occur in the candidate set are the same
  rows in the same order as before: only rows with a candidate key are deleted or added. The
  same holds of \<^verbatim>\<open>process_updates\<close> as a whole, which leaves the live feature class as it
  was.
\<close>

theorem untouched_rows_unchanged:
  assumes "ListFields (poly_fc s) w = Inr poly_names" and "gdb w (live_fc s) = Some live"
  shows "(\<exists>live'. gdb (snd (lines_386_to_401 s number_to_process check_list poly_names w))
                    (live_fc s) = Some live'
           \<and> field_names live' = field_names live
           \<and> filter (\<lambda>r. r (shape_key_field s) \<notin> set (candidate_keys s w)) (rows live')
             = filter (\<lambda>r. r (shape_key_field s) \<notin> set (candidate_keys s w)) (rows live))
       \<and> gdb (snd (process_updates s w)) (live_fc s) = Some live"
proof -
  let ?k = "shape_key_field s"
  let ?C = "set (candidate_keys s w)"
  from lines_386_to_401_effect [OF assms(1), of number_to_process check_list]
  obtain res w' D where
    r: "lines_386_to_401 s number_to_process check_list poly_names w = (res, w')"
    and d: "D \<subseteq> ?C \<inter> set check_list"
    and fail: "(\<exists>e. res = Inl e) \<longrightarrow> gdb w' = after_deletes s D w"
    and succ: "(\<exists>u. res = Inr u) \<longrightarrow>
          (\<exists>a b. gdb w (poly_fc s) = Some a \<and> after_deletes s D w (live_fc s) = Some b
                \<and> gdb w' = (after_deletes s D w)(live_fc s \<mapsto> b\<lparr>rows := rows b @ rows a\<rparr>))"
    by blast
  let ?b = "live\<lparr>rows :=
          filter (\<lambda>r. \<not> (r ?k \<in> D \<and> row_delete_error w (live_fc s) r = None)) (rows live)\<rparr>"
  have ad: "after_deletes s D w (live_fc s) = Some ?b"
    using assms(2) by (simp add: after_deletes_def)
  have fb: "filter (\<lambda>r. r ?k \<notin> ?C) (rows ?b) = filter (\<lambda>r. r ?k \<notin> ?C) (rows live)"
    using d by (simp add: filter_filter) (intro filter_cong, auto)
  have tail: "\<exists>live'. gdb w' (live_fc s) = Some live' \<and> field_names live' = field_names live
           \<and> filter (\<lambda>r. r ?k \<notin> ?C) (rows live') = filter (\<lambda>r. r ?k \<notin> ?C) (rows live)"
  proof (cases res)
    case (Inl e)
    with fail have "gdb w' (live_fc s) = Some ?b" using ad by simp
    with fb show ?thesis by simp
  next
    case (Inr u)
    with succ obtain a where a: "gdb w (poly_fc s) = Some a"
      and g: "gdb w' = (after_deletes s D w)(live_fc s \<mapsto> ?b\<lparr>rows := rows ?b @ rows a\<rparr>)"
      using ad by auto
    have "filter (\<lambda>r. r ?k \<notin> ?C) (rows a) = []"
      using a by (auto simp: candidate_keys_def filter_empty_conv)
    with g fb show ?thesis by simp
  qed
  have "gdb (snd (process_updates s w)) (live_fc s) = Some live"
    using assms(2) by (simp add: process_updates_leaves_gdb)
  with tail r show ?thesis by simp
qed

text \<open>
  The scenario of the specification, where the row of A is deleted and the rows of A and C
  are appended: the row of B is the one row with another key, before and after.
\<close>

theorem untouched_rows_unchanged_witness:
  "ListFields (poly_fc AcqDisp) scenario_world = Inr [''REFVAL'', ''VERSION'']
   \<and> gdb scenario_world (live_fc AcqDisp) = Some (keyed_table [(''A'', ''v1''), (''B'', ''v1'')])
   \<and> candidate_keys AcqDisp scenario_world = [''A'', ''C'']
   \<and> (\<exists>live'. gdb (snd (lines_386_to_401 AcqDisp 2 [''A'', ''B''] [''REFVAL'', ''VERSION'']
                          scenario_world)) (live_fc AcqDisp) = Some live'
         \<and> filter (\<lambda>r. r ''REFVAL'' \<notin> {''A'', ''C''}) (rows live')
           = [attr_row [(''REFVAL'', ''B''), (''VERSION'', ''v1'')]])"
proof -
  have b: "ListFields (poly_fc AcqDisp) scenario_world = Inr [''REFVAL'', ''VERSION'']"
    by (simp add: reconciler_defs scenario_world_def concrete_defs)
  have l: "gdb scenario_world (live_fc AcqDisp)
             = Some (keyed_table [(''A'', ''v1''), (''B'', ''v1'')])"
    by (simp add: live_fc_def scenario_world_def bare_world_def AcqDisp_def)
  have d: "candidate_keys AcqDisp scenario_world = [''A'', ''C'']"
    by (simp add: candidate_keys_def poly_fc_def scenario_world_def concrete_defs)
  have k: "shape_key_field AcqDisp = ''REFVAL''" by (simp add: AcqDisp_def)
  have f: "filter (\<lambda>r. r ''REFVAL'' \<notin> {''A'', ''C''})
             (rows (keyed_table [(''A'', ''v1''), (''B'', ''v1'')]))
           = [attr_row [(''REFVAL'', ''B''), (''VERSION'', ''v1'')]]"
    by (simp add: keyed_table_def attr_row_def)
  from untouched_rows_unchanged [OF b l, of 2 "[''A'', ''B'']"] f
  have "\<exists>live'. gdb (snd (lines_386_to_401 AcqDisp 2 [''A'', ''B''] [''REFVAL'', ''VERSION'']
                          scenario_world)) (live_fc AcqDisp) = Some live'
         \<and> filter (\<lambda>r. r ''REFVAL'' \<notin> {''A'', ''C''}) (rows live')
           = [attr_row [(''REFVAL'', ''B''), (''VERSION'', ''v1'')]]"
    by (auto simp: k d)
  with b l d show ?thesis by blast
qed

end
